theory Spec2Isabelle
  imports Main "HOL-Library.Word"
begin

unbundle bit_operations_syntax

section \<open>The byte source\<close>

text \<open>
  The parser of \<^verbatim>\<open>rdbtools/parser.py\<close> reads a Redis dump through a file object
  \<^verbatim>\<open>f\<close>.  The file is modelled by the list of bytes that are still unread; every
  reader returns the value it decoded together with the bytes left.  A Python exception
  is a value of type \<open>error\<close>, and a reader that raises returns \<open>Inl\<close> of it.
\<close>

type_synonym byte = "8 word"
type_synonym bytes = "byte list"

datatype error =
    StructError         \<comment> \<open>\<^verbatim>\<open>struct.error\<close>: \<^verbatim>\<open>struct.unpack\<close> got too few bytes\<close>
  | IndexError          \<comment> \<open>a \<^verbatim>\<open>bytearray\<close> index out of range\<close>
  | ValueError          \<comment> \<open>\<^verbatim>\<open>int()\<close> or \<^verbatim>\<open>float()\<close> rejected its argument\<close>
  | KeyError            \<comment> \<open>\<^verbatim>\<open>DATA_TYPE_MAPPING[data_type]\<close> has no such key\<close>
  | TypeError           \<comment> \<open>a packed value whose blob is not a \<^verbatim>\<open>str\<close>\<close>
  | BadMagic            \<comment> \<open>\<^verbatim>\<open>Exception('verify_magic_string', ...)\<close>\<close>
  | BadVersion          \<comment> \<open>\<^verbatim>\<open>Exception('verify_version', ...)\<close>\<close>
  | UnknownType         \<comment> \<open>\<^verbatim>\<open>Exception('read_object', 'Invalid object type ...')\<close>\<close>
  | BadIntsetEncoding   \<comment> \<open>\<^verbatim>\<open>Exception('read_intset', 'Invalid encoding ...')\<close>\<close>
  | BadZiplistEntry     \<comment> \<open>\<^verbatim>\<open>Exception('read_ziplist_entry', 'Invalid entry_header ...')\<close>\<close>
  | BadZiplistEnd       \<comment> \<open>\<^verbatim>\<open>Exception(..., 'Invalid zip list end ...')\<close>\<close>
  | OddZiplistLength    \<comment> \<open>\<^verbatim>\<open>Exception(..., 'Expected even number of elements ...')\<close>\<close>
  | TruncatedZipmap     \<comment> \<open>\<^verbatim>\<open>Exception('read_zip_map', 'Unexepcted end of zip map ...')\<close>\<close>
  | LzfLengthMismatch   \<comment> \<open>\<^verbatim>\<open>Exception('lzf_decompress', 'Expected lengths do not match ...')\<close>\<close>
  | InitFilterError     \<comment> \<open>\<^verbatim>\<open>Exception('init_filter', ...)\<close>\<close>

definition and_then :: "error + 'a \<Rightarrow> ('a \<Rightarrow> error + 'b) \<Rightarrow> error + 'b" where
  "and_then m k = (case m of Inl e \<Rightarrow> Inl e | Inr x \<Rightarrow> k x)"

text \<open>
  Python's integers are unbounded: they are \<open>int\<close>.  \<^verbatim>\<open>f.read(n)\<close> returns at most
  \<open>n\<close> bytes and never raises at the end of the file; the parser only calls it with
  a size that is not negative.
\<close>

definition f_read :: "int \<Rightarrow> bytes \<Rightarrow> bytes \<times> bytes" where
  "f_read n f = (take (nat n) f, drop (nat n) f)"

text \<open>\<^verbatim>\<open>skip(f, free)\<close>: \<^verbatim>\<open>if free: f.read(free)\<close>.\<close>

definition skip :: "bytes \<Rightarrow> int \<Rightarrow> bytes" where
  "skip f free = (if free \<noteq> 0 then snd (f_read free f) else f)"

text \<open>
  \<^verbatim>\<open>struct.unpack\<close> with a native format character: the host is little-endian (the
  specification's default byte order), the first byte is the least significant.  It
  raises when the string does not have exactly the size of the format.
\<close>

fun le_int :: "bytes \<Rightarrow> int" where
  "le_int [] = 0"
| "le_int (b # bs) = uint b + 256 * le_int bs"

definition to_signed :: "nat \<Rightarrow> int \<Rightarrow> int" where
  "to_signed w u = (if u < 2 ^ (w - 1) then u else u - 2 ^ w)"

definition unpack_unsigned :: "nat \<Rightarrow> bytes \<Rightarrow> error + int" where
  "unpack_unsigned n s = (if length s = n then Inr (le_int s) else Inl StructError)"

definition unpack_signed :: "nat \<Rightarrow> bytes \<Rightarrow> error + int" where
  "unpack_signed n s =
     (if length s = n then Inr (to_signed (8 * n) (le_int s)) else Inl StructError)"

definition read_unsigned :: "nat \<Rightarrow> bytes \<Rightarrow> error + int \<times> bytes" where
  "read_unsigned n f =
     (case f_read (int n) f of (s, f') \<Rightarrow> and_then (unpack_unsigned n s) (\<lambda>v. Inr (v, f')))"

definition read_signed :: "nat \<Rightarrow> bytes \<Rightarrow> error + int \<times> bytes" where
  "read_signed n f =
     (case f_read (int n) f of (s, f') \<Rightarrow> and_then (unpack_signed n s) (\<lambda>v. Inr (v, f')))"

definition read_signed_char :: "bytes \<Rightarrow> error + int \<times> bytes" where
  "read_signed_char f = read_signed 1 f"

definition read_unsigned_char :: "bytes \<Rightarrow> error + int \<times> bytes" where
  "read_unsigned_char f = read_unsigned 1 f"

definition read_signed_short :: "bytes \<Rightarrow> error + int \<times> bytes" where
  "read_signed_short f = read_signed 2 f"

definition read_unsigned_short :: "bytes \<Rightarrow> error + int \<times> bytes" where
  "read_unsigned_short f = read_unsigned 2 f"

definition read_signed_int :: "bytes \<Rightarrow> error + int \<times> bytes" where
  "read_signed_int f = read_signed 4 f"

definition read_unsigned_int :: "bytes \<Rightarrow> error + int \<times> bytes" where
  "read_unsigned_int f = read_unsigned 4 f"

definition read_signed_long :: "bytes \<Rightarrow> error + int \<times> bytes" where
  "read_signed_long f = read_signed 8 f"

definition read_unsigned_long :: "bytes \<Rightarrow> error + int \<times> bytes" where
  "read_unsigned_long f = read_unsigned 8 f"

text \<open>\<^verbatim>\<open>struct.unpack('>I', f.read(4))\<close>: the first byte is the most significant.\<close>

definition read_big_endian_unsigned_int :: "bytes \<Rightarrow> error + int \<times> bytes" where
  "read_big_endian_unsigned_int f =
     (case f_read 4 f of (s, f') \<Rightarrow>
        if length s = 4 then Inr (le_int (rev s), f') else Inl StructError)"

text \<open>
  \<^verbatim>\<open>read_24bit_signed_number\<close>: \<^verbatim>\<open>s = '0' + f.read(3)\<close>, unpacked as a signed 32-bit
  integer and shifted right by 8 (Python's \<^verbatim>\<open>>>\<close> rounds towards minus infinity, as
  \<open>drop_bit\<close> on \<open>int\<close> does).  The character \<^verbatim>\<open>'0'\<close> is the byte 48.
\<close>

definition read_24bit_signed_number :: "bytes \<Rightarrow> error + int \<times> bytes" where
  "read_24bit_signed_number f =
     (case f_read 3 f of (s, f') \<Rightarrow>
        and_then (unpack_signed 4 (48 # s)) (\<lambda>num. Inr (drop_bit 8 num, f')))"

text \<open>
  \<^verbatim>\<open>ntohl\<close>: reads an unsigned 32-bit integer in the host's order and swaps its four
  bytes.
\<close>

definition ntohl :: "bytes \<Rightarrow> error + int \<times> bytes" where
  "ntohl f =
     and_then (read_unsigned_int f) (\<lambda>(val, f').
       let new_val = 0;
           new_val = new_val OR push_bit 24 (val AND 0x000000ff);
           new_val = new_val OR drop_bit 24 (val AND 0xff000000);
           new_val = new_val OR push_bit 8 (val AND 0x0000ff00);
           new_val = new_val OR drop_bit 8 (val AND 0x00ff0000)
       in Inr (new_val, f'))"

section \<open>The length codec\<close>

definition REDIS_RDB_6BITLEN :: int where "REDIS_RDB_6BITLEN = 0"
definition REDIS_RDB_14BITLEN :: int where "REDIS_RDB_14BITLEN = 1"
definition REDIS_RDB_32BITLEN :: int where "REDIS_RDB_32BITLEN = 2"
definition REDIS_RDB_ENCVAL :: int where "REDIS_RDB_ENCVAL = 3"

definition read_length_with_encoding :: "bytes \<Rightarrow> error + (int \<times> bool) \<times> bytes" where
  "read_length_with_encoding f =
     and_then (read_unsigned_char f) (\<lambda>(b0, f1).
       let enc_type = drop_bit 6 (b0 AND 0xC0) in
       if enc_type = REDIS_RDB_ENCVAL then Inr ((b0 AND 0x3F, True), f1)
       else if enc_type = REDIS_RDB_6BITLEN then Inr ((b0 AND 0x3F, False), f1)
       else if enc_type = REDIS_RDB_14BITLEN then
         and_then (read_unsigned_char f1) (\<lambda>(b1, f2).
           Inr ((push_bit 8 (b0 AND 0x3F) OR b1, False), f2))
       else and_then (ntohl f1) (\<lambda>(n, f2). Inr ((n, False), f2)))"

definition read_length :: "bytes \<Rightarrow> error + int \<times> bytes" where
  "read_length f = and_then (read_length_with_encoding f) (\<lambda>((n, _), f'). Inr (n, f'))"

section \<open>The LZF decompressor\<close>

text \<open>
  \<^verbatim>\<open>xs[i]\<close> on a \<^verbatim>\<open>bytearray\<close>: a negative index counts from the end, and an index
  out of range raises \<^verbatim>\<open>IndexError\<close>.
\<close>

definition py_index :: "'a list \<Rightarrow> int \<Rightarrow> error + 'a" where
  "py_index xs i =
     (if 0 \<le> i \<and> i < int (length xs) then Inr (xs ! nat i)
      else if i < 0 \<and> - int (length xs) \<le> i then Inr (xs ! nat (int (length xs) + i))
      else Inl IndexError)"

text \<open>
  \<^verbatim>\<open>lzf_decompress\<close> walks \<^verbatim>\<open>in_stream\<close> with \<^verbatim>\<open>in_index\<close>, which only moves forward:
  the model keeps the bytes from \<^verbatim>\<open>in_index\<close> on (the list \<open>ins\<close>), so that
  \<^verbatim>\<open>in_stream[in_index]\<close> is the head of \<open>ins\<close> and raises on the empty list.
  \<^verbatim>\<open>out_index\<close> is incremented with every \<^verbatim>\<open>append\<close> to \<^verbatim>\<open>out_stream\<close> and with nothing
  else: it is \<open>length out\<close>.

  The literal run, \<^verbatim>\<open>for x in xrange(0, ctrl + 1)\<close>, one byte per iteration:
\<close>

fun lzf_literal :: "nat \<Rightarrow> bytes \<Rightarrow> bytes \<Rightarrow> error + bytes \<times> bytes" where
  "lzf_literal 0 ins out = Inr (ins, out)"
| "lzf_literal (Suc n) ins out =
     (case ins of [] \<Rightarrow> Inl IndexError | b # ins' \<Rightarrow> lzf_literal n ins' (out @ [b]))"

text \<open>The back-reference, \<^verbatim>\<open>for x in xrange(0, length + 2)\<close>, one byte per iteration:\<close>

fun lzf_backref :: "nat \<Rightarrow> int \<Rightarrow> bytes \<Rightarrow> error + bytes" where
  "lzf_backref 0 ref out = Inr out"
| "lzf_backref (Suc n) ref out =
     and_then (py_index out ref) (\<lambda>b. lzf_backref n (ref + 1) (out @ [b]))"

lemma lzf_literal_shorter:
  "lzf_literal n ins out = Inr (ins', out') \<Longrightarrow> length ins' \<le> length ins"
  by (induction n ins out rule: lzf_literal.induct) (auto split: list.splits)

text \<open>
  The loop \<^verbatim>\<open>while in_index < in_len\<close>.  The test \<^verbatim>\<open>isinstance(ctrl, int)\<close> never
  fails on an element of a \<^verbatim>\<open>bytearray\<close>.
\<close>

function lzf_loop :: "bytes \<Rightarrow> bytes \<Rightarrow> error + bytes" where
  "lzf_loop [] out = Inr out"
| "lzf_loop (c # ins) out =
     (let ctrl = uint c in
      if ctrl < 32 then
        (case lzf_literal (nat (ctrl + 1)) ins out of
           Inl e \<Rightarrow> Inl e
         | Inr (ins', out') \<Rightarrow> lzf_loop ins' out')
      else
        (let len = drop_bit 5 ctrl in
         case (if len = 7
               then (case ins of [] \<Rightarrow> Inl IndexError | x # ins1 \<Rightarrow> Inr (len + uint x, ins1))
               else Inr (len, ins)) of
           Inl e \<Rightarrow> Inl e
         | Inr (len, ins1) \<Rightarrow>
             (case ins1 of
                [] \<Rightarrow> Inl IndexError
              | b2 # ins2 \<Rightarrow>
                  (let ref = int (length out) - push_bit 8 (ctrl AND 0x1f) - uint b2 - 1 in
                   case lzf_backref (nat (len + 2)) ref out of
                     Inl e \<Rightarrow> Inl e
                   | Inr out' \<Rightarrow> lzf_loop ins2 out'))))"
  by pat_completeness auto
termination
  by (relation "measure (\<lambda>(ins, out). length ins)")
     (auto dest: lzf_literal_shorter split: if_splits list.splits)

definition lzf_decompress :: "bytes \<Rightarrow> int \<Rightarrow> error + bytes" where
  "lzf_decompress compressed expected_length =
     and_then (lzf_loop compressed []) (\<lambda>out_stream.
       if int (length out_stream) \<noteq> expected_length then Inl LzfLengthMismatch
       else Inr out_stream)"

section \<open>The string codec\<close>

text \<open>
  What \<^verbatim>\<open>read_string\<close> and \<^verbatim>\<open>read_ziplist_entry\<close> return: a \<^verbatim>\<open>str\<close>, an \<^verbatim>\<open>int\<close>, or
  \<^verbatim>\<open>None\<close>.
\<close>

datatype val = VStr bytes | VInt int | VNone

definition REDIS_RDB_ENC_INT8 :: int where "REDIS_RDB_ENC_INT8 = 0"
definition REDIS_RDB_ENC_INT16 :: int where "REDIS_RDB_ENC_INT16 = 1"
definition REDIS_RDB_ENC_INT32 :: int where "REDIS_RDB_ENC_INT32 = 2"
definition REDIS_RDB_ENC_LZF :: int where "REDIS_RDB_ENC_LZF = 3"

definition read_string :: "bytes \<Rightarrow> error + val \<times> bytes" where
  "read_string f =
     and_then (read_length_with_encoding f) (\<lambda>((len, is_encoded), f1).
       if is_encoded then
         (if len = REDIS_RDB_ENC_INT8 then
            and_then (read_signed_char f1) (\<lambda>(v, f2). Inr (VInt v, f2))
          else if len = REDIS_RDB_ENC_INT16 then
            and_then (read_signed_short f1) (\<lambda>(v, f2). Inr (VInt v, f2))
          else if len = REDIS_RDB_ENC_INT32 then
            and_then (read_signed_int f1) (\<lambda>(v, f2). Inr (VInt v, f2))
          else if len = REDIS_RDB_ENC_LZF then
            and_then (read_length f1) (\<lambda>(clen, f2).
            and_then (read_length f2) (\<lambda>(l, f3).
              case f_read clen f3 of (compressed, f4) \<Rightarrow>
                and_then (lzf_decompress compressed l) (\<lambda>s. Inr (VStr s, f4))))
          else Inr (VNone, f1))
       else (case f_read len f1 of (s, f2) \<Rightarrow> Inr (VStr s, f2)))"

definition skip_string :: "bytes \<Rightarrow> error + bytes" where
  "skip_string f =
     and_then (read_length_with_encoding f) (\<lambda>((len, is_encoded), f1).
       and_then
         (if is_encoded then
            (if len = REDIS_RDB_ENC_INT8 then Inr (1, f1)
             else if len = REDIS_RDB_ENC_INT16 then Inr (2, f1)
             else if len = REDIS_RDB_ENC_INT32 then Inr (4, f1)
             else if len = REDIS_RDB_ENC_LZF then
               and_then (read_length f1) (\<lambda>(clen, f2).
               and_then (read_length f2) (\<lambda>(l, f3). Inr (clen, f3)))
             else Inr (0, f1))
          else Inr (len, f1))
         (\<lambda>(bytes_to_skip, f2). Inr (skip f2 bytes_to_skip)))"

section \<open>Ziplist entries\<close>

definition read_ziplist_entry :: "bytes \<Rightarrow> error + val \<times> bytes" where
  "read_ziplist_entry f =
     and_then (read_unsigned_char f) (\<lambda>(prev_length, f1).
     and_then (if prev_length = 254
               then and_then (read_unsigned_int f1) (\<lambda>(prev_length, f2). Inr f2)
               else Inr f1) (\<lambda>f2.
     and_then (read_unsigned_char f2) (\<lambda>(entry_header, f3).
       if drop_bit 6 entry_header = 0 then
         (let len = entry_header AND 0x3F in
          case f_read len f3 of (v, f4) \<Rightarrow> Inr (VStr v, f4))
       else if drop_bit 6 entry_header = 1 then
         and_then (read_unsigned_char f3) (\<lambda>(b, f4).
           let len = push_bit 8 (entry_header AND 0x3F) OR b in
           case f_read len f4 of (v, f5) \<Rightarrow> Inr (VStr v, f5))
       else if drop_bit 6 entry_header = 2 then
         and_then (read_big_endian_unsigned_int f3) (\<lambda>(len, f4).
           case f_read len f4 of (v, f5) \<Rightarrow> Inr (VStr v, f5))
       else if drop_bit 4 entry_header = 12 then
         and_then (read_signed_short f3) (\<lambda>(v, f4). Inr (VInt v, f4))
       else if drop_bit 4 entry_header = 13 then
         and_then (read_signed_int f3) (\<lambda>(v, f4). Inr (VInt v, f4))
       else if drop_bit 4 entry_header = 14 then
         and_then (read_signed_long f3) (\<lambda>(v, f4). Inr (VInt v, f4))
       else if entry_header = 240 then
         and_then (read_24bit_signed_number f3) (\<lambda>(v, f4). Inr (VInt v, f4))
       else if entry_header = 254 then
         and_then (read_signed_char f3) (\<lambda>(v, f4). Inr (VInt v, f4))
       else if entry_header \<ge> 241 \<and> entry_header \<le> 253 then
         Inr (VInt (entry_header - 241), f3)
       else Inl BadZiplistEntry)))"

section \<open>Callbacks\<close>

text \<open>
  The parser reports what it decodes by calling the methods of \<^verbatim>\<open>RdbCallback\<close>.  A call
  is an \<open>event\<close>; a decoder returns the events it emitted, in order, together with
  either the exception that stopped it or its result.  Events emitted before an
  exception stay emitted.

  An expiry is a \<^verbatim>\<open>datetime\<close>: it is modelled by its number of microseconds since the
  Unix epoch.  \<^verbatim>\<open>info\<close> holds the encoding and, for the packed encodings,
  \<^verbatim>\<open>sizeof_value\<close>.  A sorted-set score is the \<^verbatim>\<open>float\<close> made from a string, or a
  ziplist entry that is not a string, passed as it is.
\<close>

datatype info = Info string "int option"

datatype 'f score = FloatScore 'f | OtherScore val

datatype 'f event =
    Start_rdb
  | Start_database int
  | Set_key val val "int option" info
  | Start_hash val int "int option" info
  | Hset val val val
  | End_hash val
  | Start_set val int "int option" info
  | Sadd val val
  | End_set val
  | Start_list val int "int option" info
  | Rpush val val
  | End_list val
  | Start_sorted_set val int "int option" info
  | Zadd val "'f score" val
  | End_sorted_set val
  | End_database int
  | End_rdb

definition lift :: "error + 'a \<Rightarrow> 'f event list \<times> (error + 'a)" where
  "lift r = ([], r)"

definition emit :: "'f event \<Rightarrow> 'f event list \<times> (error + unit)" where
  "emit ev = ([ev], Inr ())"

definition ebind ::
  "'f event list \<times> (error + 'a) \<Rightarrow> ('a \<Rightarrow> 'f event list \<times> (error + 'b))
     \<Rightarrow> 'f event list \<times> (error + 'b)" where
  "ebind m k =
     (case m of
        (evs, Inl e) \<Rightarrow> (evs, Inl e)
      | (evs, Inr x) \<Rightarrow> (case k x of (evs', r) \<Rightarrow> (evs @ evs', r)))"

text \<open>\<^verbatim>\<open>for x in xrange(0, n): body\<close>, the body reading from the stream.\<close>

primrec for_range ::
  "nat \<Rightarrow> (bytes \<Rightarrow> 'f event list \<times> (error + bytes)) \<Rightarrow> bytes
     \<Rightarrow> 'f event list \<times> (error + bytes)" where
  "for_range 0 body f = ([], Inr f)"
| "for_range (Suc n) body f = ebind (body f) (for_range n body)"

section \<open>Library functions\<close>

text \<open>
  The parser calls four functions of Python that are not part of the repository.  They
  are parameters of the model: \<^verbatim>\<open>int(s)\<close> and \<^verbatim>\<open>float(s)\<close> on a string (\<open>None\<close> when
  they raise \<^verbatim>\<open>ValueError\<close>), \<^verbatim>\<open>str(i)\<close> on an integer, and
  \<^verbatim>\<open>re.compile(pattern).match(s)\<close> (\<open>True\<close> when it returns a match).
\<close>

record 'f builtins =
  py_int :: "bytes \<Rightarrow> int option"
  py_float :: "bytes \<Rightarrow> 'f option"
  py_str_int :: "int \<Rightarrow> bytes"
  re_match :: "bytes \<Rightarrow> bytes \<Rightarrow> bool"

section \<open>Object decoders\<close>

definition REDIS_RDB_TYPE_STRING :: int where "REDIS_RDB_TYPE_STRING = 0"
definition REDIS_RDB_TYPE_LIST :: int where "REDIS_RDB_TYPE_LIST = 1"
definition REDIS_RDB_TYPE_SET :: int where "REDIS_RDB_TYPE_SET = 2"
definition REDIS_RDB_TYPE_ZSET :: int where "REDIS_RDB_TYPE_ZSET = 3"
definition REDIS_RDB_TYPE_HASH :: int where "REDIS_RDB_TYPE_HASH = 4"
definition REDIS_RDB_TYPE_HASH_ZIPMAP :: int where "REDIS_RDB_TYPE_HASH_ZIPMAP = 9"
definition REDIS_RDB_TYPE_LIST_ZIPLIST :: int where "REDIS_RDB_TYPE_LIST_ZIPLIST = 10"
definition REDIS_RDB_TYPE_SET_INTSET :: int where "REDIS_RDB_TYPE_SET_INTSET = 11"
definition REDIS_RDB_TYPE_ZSET_ZIPLIST :: int where "REDIS_RDB_TYPE_ZSET_ZIPLIST = 12"
definition REDIS_RDB_TYPE_HASH_ZIPLIST :: int where "REDIS_RDB_TYPE_HASH_ZIPLIST = 13"

text \<open>
  The packed encodings read one string and parse it from a buffer of its own
  (\<^verbatim>\<open>StringIO(raw_string)\<close>, \<^verbatim>\<open>io.BytesIO(bytearray(raw_string))\<close>).  When
  \<^verbatim>\<open>read_string\<close> returned an integer or \<^verbatim>\<open>None\<close> instead of a \<^verbatim>\<open>str\<close>, one of the
  header reads or \<^verbatim>\<open>len(raw_string)\<close> raises before the first callback: that is the
  error \<open>TypeError\<close> here.
\<close>

definition read_intset ::
  "val \<Rightarrow> int option \<Rightarrow> bytes \<Rightarrow> 'f event list \<times> (error + bytes)" where
  "read_intset key expiry f =
     ebind (lift (read_string f)) (\<lambda>(raw_string, f1).
       case raw_string of
         VStr s \<Rightarrow>
           ebind (lift (read_unsigned_int s)) (\<lambda>(encoding, buff).
           ebind (lift (read_unsigned_int buff)) (\<lambda>(num_entries, buff).
           ebind (emit (Start_set key num_entries expiry
                          (Info ''intset'' (Some (int (length s)))))) (\<lambda>_.
           ebind (for_range (nat num_entries) (\<lambda>buff.
                    ebind (lift (if encoding = 8 then read_unsigned_long buff
                                 else if encoding = 4 then read_unsigned_int buff
                                 else if encoding = 2 then read_unsigned_short buff
                                 else Inl BadIntsetEncoding)) (\<lambda>(entry, buff).
                      ([Sadd key (VInt entry)], Inr buff))) buff) (\<lambda>_.
             ([End_set key], Inr f1)))))
       | _ \<Rightarrow> ([], Inl TypeError))"

definition read_ziplist ::
  "val \<Rightarrow> int option \<Rightarrow> bytes \<Rightarrow> 'f event list \<times> (error + bytes)" where
  "read_ziplist key expiry f =
     ebind (lift (read_string f)) (\<lambda>(raw_string, f1).
       case raw_string of
         VStr s \<Rightarrow>
           ebind (lift (read_unsigned_int s)) (\<lambda>(zlbytes, buff).
           ebind (lift (read_unsigned_int buff)) (\<lambda>(tail_offset, buff).
           ebind (lift (read_unsigned_short buff)) (\<lambda>(num_entries, buff).
           ebind (emit (Start_list key num_entries expiry
                          (Info ''ziplist'' (Some (int (length s)))))) (\<lambda>_.
           ebind (for_range (nat num_entries) (\<lambda>buff.
                    ebind (lift (read_ziplist_entry buff)) (\<lambda>(v, buff).
                      ([Rpush key v], Inr buff))) buff) (\<lambda>buff.
           ebind (lift (read_unsigned_char buff)) (\<lambda>(zlist_end, buff).
             if zlist_end \<noteq> 255 then ([], Inl BadZiplistEnd)
             else ([End_list key], Inr f1)))))))
       | _ \<Rightarrow> ([], Inl TypeError))"

definition read_zset_from_ziplist ::
  "'f builtins \<Rightarrow> val \<Rightarrow> int option \<Rightarrow> bytes \<Rightarrow> 'f event list \<times> (error + bytes)" where
  "read_zset_from_ziplist B key expiry f =
     ebind (lift (read_string f)) (\<lambda>(raw_string, f1).
       case raw_string of
         VStr s \<Rightarrow>
           ebind (lift (read_unsigned_int s)) (\<lambda>(zlbytes, buff).
           ebind (lift (read_unsigned_int buff)) (\<lambda>(tail_offset, buff).
           ebind (lift (read_unsigned_short buff)) (\<lambda>(num_entries, buff).
             if num_entries mod 2 \<noteq> 0 then ([], Inl OddZiplistLength)
             else
               (let num_entries = num_entries div 2 in
                ebind (emit (Start_sorted_set key num_entries expiry
                               (Info ''ziplist'' (Some (int (length s)))))) (\<lambda>_.
                ebind (for_range (nat num_entries) (\<lambda>buff.
                         ebind (lift (read_ziplist_entry buff)) (\<lambda>(member, buff).
                         ebind (lift (read_ziplist_entry buff)) (\<lambda>(score, buff).
                           case score of
                             VStr t \<Rightarrow>
                               (case py_float B t of
                                  None \<Rightarrow> ([], Inl ValueError)
                                | Some x \<Rightarrow> ([Zadd key (FloatScore x) member], Inr buff))
                           | _ \<Rightarrow> ([Zadd key (OtherScore score) member], Inr buff)))) buff)
                  (\<lambda>buff.
                ebind (lift (read_unsigned_char buff)) (\<lambda>(zlist_end, buff).
                  if zlist_end \<noteq> 255 then ([], Inl BadZiplistEnd)
                  else ([End_sorted_set key], Inr f1))))))))
       | _ \<Rightarrow> ([], Inl TypeError))"

definition read_hash_from_ziplist ::
  "val \<Rightarrow> int option \<Rightarrow> bytes \<Rightarrow> 'f event list \<times> (error + bytes)" where
  "read_hash_from_ziplist key expiry f =
     ebind (lift (read_string f)) (\<lambda>(raw_string, f1).
       case raw_string of
         VStr s \<Rightarrow>
           ebind (lift (read_unsigned_int s)) (\<lambda>(zlbytes, buff).
           ebind (lift (read_unsigned_int buff)) (\<lambda>(tail_offset, buff).
           ebind (lift (read_unsigned_short buff)) (\<lambda>(num_entries, buff).
             if num_entries mod 2 \<noteq> 0 then ([], Inl OddZiplistLength)
             else
               (let num_entries = num_entries div 2 in
                ebind (emit (Start_hash key num_entries expiry
                               (Info ''ziplist'' (Some (int (length s)))))) (\<lambda>_.
                ebind (for_range (nat num_entries) (\<lambda>buff.
                         ebind (lift (read_ziplist_entry buff)) (\<lambda>(field, buff).
                         ebind (lift (read_ziplist_entry buff)) (\<lambda>(v, buff).
                           ([Hset key field v], Inr buff)))) buff) (\<lambda>buff.
                ebind (lift (read_unsigned_char buff)) (\<lambda>(zlist_end, buff).
                  if zlist_end \<noteq> 255 then ([], Inl BadZiplistEnd)
                  else ([End_hash key], Inr f1))))))))
       | _ \<Rightarrow> ([], Inl TypeError))"

text \<open>\<^verbatim>\<open>read_zipmap_next_length\<close>: \<open>None\<close> is the terminator 255.\<close>

definition read_zipmap_next_length :: "bytes \<Rightarrow> error + int option \<times> bytes" where
  "read_zipmap_next_length f =
     and_then (read_unsigned_char f) (\<lambda>(num, f1).
       if num < 254 then Inr (Some num, f1)
       else if num = 254 then and_then (read_unsigned_int f1) (\<lambda>(n, f2). Inr (Some n, f2))
       else Inr (None, f1))"

lemma f_read_shorter: "f_read n f = (s, f') \<Longrightarrow> length f' \<le> length f"
  by (auto simp: f_read_def)

lemma f_read_shorter_sym: "(s, f') = f_read n f \<Longrightarrow> length f' \<le> length f"
  by (auto simp: f_read_def)

lemma skip_shorter: "length (skip f n) \<le> length f"
  by (simp add: skip_def f_read_def)

lemma read_unsigned_shorter:
  "read_unsigned n f = Inr (v, f') \<Longrightarrow> length f' + n = length f"
  by (auto simp: read_unsigned_def f_read_def unpack_unsigned_def and_then_def
      split: if_splits)

lemma read_signed_shorter:
  "read_signed n f = Inr (v, f') \<Longrightarrow> length f' + n = length f"
  by (auto simp: read_signed_def f_read_def unpack_signed_def and_then_def split: if_splits)

lemma read_unsigned_char_shorter:
  "read_unsigned_char f = Inr (v, f') \<Longrightarrow> length f' < length f"
  by (auto simp: read_unsigned_char_def dest: read_unsigned_shorter)

lemma read_zipmap_next_length_shorter:
  "read_zipmap_next_length f = Inr (v, f') \<Longrightarrow> length f' < length f"
  by (auto simp: read_zipmap_next_length_def and_then_def read_unsigned_int_def
      split: sum.splits if_splits
      dest!: read_unsigned_char_shorter read_unsigned_shorter)

text \<open>
  The loop \<^verbatim>\<open>while True\<close> of \<^verbatim>\<open>read_zipmap\<close>; it ends at the terminator, whatever the
  declared number of entries.
\<close>

function read_zipmap_entries ::
  "'f builtins \<Rightarrow> val \<Rightarrow> bytes \<Rightarrow> 'f event list \<times> (error + unit)" where
  "read_zipmap_entries B key buff =
     (case read_zipmap_next_length buff of
        Inl e \<Rightarrow> ([], Inl e)
      | Inr (None, b1) \<Rightarrow> ([], Inr ())
      | Inr (Some next_length, b1) \<Rightarrow>
          (case f_read next_length b1 of (k, b2) \<Rightarrow>
             (case read_zipmap_next_length b2 of
                Inl e \<Rightarrow> ([], Inl e)
              | Inr (None, b3) \<Rightarrow> ([], Inl TruncatedZipmap)
              | Inr (Some next_length, b3) \<Rightarrow>
                  (case read_unsigned_char b3 of
                     Inl e \<Rightarrow> ([], Inl e)
                   | Inr (free, b4) \<Rightarrow>
                       (case f_read next_length b4 of (v, b5) \<Rightarrow>
                          (let v' = (case py_int B v of Some i \<Rightarrow> VInt i | None \<Rightarrow> VStr v);
                               b6 = skip b5 free
                           in case read_zipmap_entries B key b6 of
                                (evs, r) \<Rightarrow> (Hset key (VStr k) v' # evs, r)))))))"
  by pat_completeness auto
termination
  by (relation "measure (\<lambda>(B, key, buff). length buff)")
     (auto dest!: read_zipmap_next_length_shorter read_unsigned_char_shorter
             f_read_shorter_sym
           intro!: le_less_trans [OF skip_shorter])

declare read_zipmap_entries.simps [simp del]

definition read_zipmap ::
  "'f builtins \<Rightarrow> val \<Rightarrow> int option \<Rightarrow> bytes \<Rightarrow> 'f event list \<times> (error + bytes)" where
  "read_zipmap B key expiry f =
     ebind (lift (read_string f)) (\<lambda>(raw_string, f1).
       case raw_string of
         VStr s \<Rightarrow>
           ebind (lift (read_unsigned_char s)) (\<lambda>(num_entries, buff).
           ebind (emit (Start_hash key num_entries expiry
                          (Info ''zipmap'' (Some (int (length s)))))) (\<lambda>_.
           ebind (read_zipmap_entries B key buff) (\<lambda>_.
             ([End_hash key], Inr f1))))
       | _ \<Rightarrow> ([], Inl TypeError))"

definition read_object ::
  "'f builtins \<Rightarrow> val \<Rightarrow> int option \<Rightarrow> int \<Rightarrow> bytes \<Rightarrow> 'f event list \<times> (error + bytes)" where
  "read_object B key expiry enc_type f =
     (if enc_type = REDIS_RDB_TYPE_STRING then
        ebind (lift (read_string f)) (\<lambda>(v, f1).
          ([Set_key key v expiry (Info ''string'' None)], Inr f1))
      else if enc_type = REDIS_RDB_TYPE_LIST then
        ebind (lift (read_length f)) (\<lambda>(len, f1).
        ebind (emit (Start_list key len expiry (Info ''linkedlist'' None))) (\<lambda>_.
        ebind (for_range (nat len) (\<lambda>f.
                 ebind (lift (read_string f)) (\<lambda>(v, f). ([Rpush key v], Inr f))) f1) (\<lambda>f2.
          ([End_list key], Inr f2))))
      else if enc_type = REDIS_RDB_TYPE_SET then
        ebind (lift (read_length f)) (\<lambda>(len, f1).
        ebind (emit (Start_set key len expiry (Info ''hashtable'' None))) (\<lambda>_.
        ebind (for_range (nat len) (\<lambda>f.
                 ebind (lift (read_string f)) (\<lambda>(v, f). ([Sadd key v], Inr f))) f1) (\<lambda>f2.
          ([End_set key], Inr f2))))
      else if enc_type = REDIS_RDB_TYPE_ZSET then
        ebind (lift (read_length f)) (\<lambda>(len, f1).
        ebind (emit (Start_sorted_set key len expiry (Info ''skiplist'' None))) (\<lambda>_.
        ebind (for_range (nat len) (\<lambda>f.
                 ebind (lift (read_string f)) (\<lambda>(v, f).
                 ebind (lift (read_unsigned_char f)) (\<lambda>(dbl_length, f).
                   case f_read dbl_length f of (score, f) \<Rightarrow>
                     (case py_float B score of
                        None \<Rightarrow> ([], Inl ValueError)
                      | Some x \<Rightarrow> ([Zadd key (FloatScore x) v], Inr f))))) f1) (\<lambda>f2.
          ([End_sorted_set key], Inr f2))))
      else if enc_type = REDIS_RDB_TYPE_HASH then
        ebind (lift (read_length f)) (\<lambda>(len, f1).
        ebind (emit (Start_hash key len expiry (Info ''hashtable'' None))) (\<lambda>_.
        ebind (for_range (nat len) (\<lambda>f.
                 ebind (lift (read_string f)) (\<lambda>(field, f).
                 ebind (lift (read_string f)) (\<lambda>(v, f).
                   ([Hset key field v], Inr f)))) f1) (\<lambda>f2.
          ([End_hash key], Inr f2))))
      else if enc_type = REDIS_RDB_TYPE_HASH_ZIPMAP then read_zipmap B key expiry f
      else if enc_type = REDIS_RDB_TYPE_LIST_ZIPLIST then read_ziplist key expiry f
      else if enc_type = REDIS_RDB_TYPE_SET_INTSET then read_intset key expiry f
      else if enc_type = REDIS_RDB_TYPE_ZSET_ZIPLIST then read_zset_from_ziplist B key expiry f
      else if enc_type = REDIS_RDB_TYPE_HASH_ZIPLIST then read_hash_from_ziplist key expiry f
      else ([], Inl UnknownType))"

section \<open>The skip path\<close>

text \<open>\<^verbatim>\<open>for x in xrange(0, skip_strings): self.skip_string(f)\<close>\<close>

primrec skip_strings_loop :: "nat \<Rightarrow> bytes \<Rightarrow> error + bytes" where
  "skip_strings_loop 0 f = Inr f"
| "skip_strings_loop (Suc n) f = and_then (skip_string f) (skip_strings_loop n)"

definition skip_object :: "bytes \<Rightarrow> int \<Rightarrow> error + bytes" where
  "skip_object f enc_type =
     and_then
       (if enc_type = REDIS_RDB_TYPE_STRING then Inr (1, f)
        else if enc_type = REDIS_RDB_TYPE_LIST then read_length f
        else if enc_type = REDIS_RDB_TYPE_SET then read_length f
        else if enc_type = REDIS_RDB_TYPE_ZSET then
          and_then (read_length f) (\<lambda>(n, f1). Inr (n * 2, f1))
        else if enc_type = REDIS_RDB_TYPE_HASH then
          and_then (read_length f) (\<lambda>(n, f1). Inr (n * 2, f1))
        else if enc_type = REDIS_RDB_TYPE_HASH_ZIPMAP then Inr (1, f)
        else if enc_type = REDIS_RDB_TYPE_LIST_ZIPLIST then Inr (1, f)
        else if enc_type = REDIS_RDB_TYPE_SET_INTSET then Inr (1, f)
        else if enc_type = REDIS_RDB_TYPE_ZSET_ZIPLIST then Inr (1, f)
        else if enc_type = REDIS_RDB_TYPE_HASH_ZIPLIST then Inr (1, f)
        else Inl UnknownType)
       (\<lambda>(skip_strings, f1). skip_strings_loop (nat skip_strings) f1)"

definition skip_key_and_object :: "bytes \<Rightarrow> int \<Rightarrow> error + bytes" where
  "skip_key_and_object f data_type =
     and_then (skip_string f) (\<lambda>f1. skip_object f1 data_type)"

section \<open>The filter\<close>

definition DATA_TYPE_MAPPING :: "int \<Rightarrow> string option" where
  "DATA_TYPE_MAPPING =
     map_of [(0, ''string''), (1, ''list''), (2, ''set''), (3, ''sortedset''), (4, ''hash''),
             (9, ''hash''), (10, ''list''), (11, ''set''), (12, ''sortedset''),
             (13, ''hash'')]"

definition get_logical_type :: "int \<Rightarrow> error + string" where
  "get_logical_type data_type =
     (case DATA_TYPE_MAPPING data_type of None \<Rightarrow> Inl KeyError | Some t \<Rightarrow> Inr t)"

text \<open>
  \<^verbatim>\<open>self._filters\<close> after \<^verbatim>\<open>init_filter\<close>: \<^verbatim>\<open>dbs\<close> is \<^verbatim>\<open>None\<close> or a sequence of
  integers, \<^verbatim>\<open>keys\<close> a compiled regular expression (here: what its \<^verbatim>\<open>match\<close> answers),
  \<^verbatim>\<open>types\<close> a sequence of logical type names.
\<close>

record filters =
  filters_dbs :: "int list option"
  filters_keys :: "bytes \<Rightarrow> bool"
  filters_types :: "string list"

text \<open>
  The argument of \<^verbatim>\<open>init_filter\<close>: a dictionary that may hold \<^verbatim>\<open>dbs\<close> (an integer, a
  list of integers, or something else), \<^verbatim>\<open>keys\<close> (a pattern) and \<^verbatim>\<open>types\<close> (a string,
  a list of strings, or something else).  \<open>None\<close> is a key that is absent;
  \<^verbatim>\<open>filters = None\<close> is the dictionary with no key.  The default pattern \<^verbatim>\<open>".*"\<close> is
  the two bytes \<open>[0x2E, 0x2A]\<close>.
\<close>

datatype dbs_cfg = DbsInt int | DbsList "int list" | DbsOther
datatype types_cfg = TypesStr string | TypesList "string list" | TypesOther

record filter_cfg =
  cfg_dbs :: "dbs_cfg option"
  cfg_keys :: "bytes option"
  cfg_types :: "types_cfg option"

definition init_filter :: "'f builtins \<Rightarrow> filter_cfg \<Rightarrow> error + filters" where
  "init_filter B cfg =
     and_then
       (case cfg_dbs cfg of
          None \<Rightarrow> Inr None
        | Some (DbsInt i) \<Rightarrow> Inr (Some [i])
        | Some (DbsList l) \<Rightarrow> Inr (Some l)
        | Some DbsOther \<Rightarrow> Inl InitFilterError) (\<lambda>d.
     let k = (case cfg_keys cfg of
                None \<Rightarrow> re_match B [0x2E, 0x2A]
              | Some pat \<Rightarrow> if pat = [] then re_match B [0x2E, 0x2A] else re_match B pat) in
     and_then
       (case cfg_types cfg of
          None \<Rightarrow> Inr [''set'', ''hash'', ''sortedset'', ''string'', ''list'']
        | Some (TypesStr t) \<Rightarrow> Inr [t]
        | Some (TypesList l) \<Rightarrow> Inr l
        | Some TypesOther \<Rightarrow> Inl InitFilterError) (\<lambda>t.
     Inr \<lparr> filters_dbs = d, filters_keys = k, filters_types = t \<rparr>))"

text \<open>Python's truth value of a key, and \<^verbatim>\<open>str(key)\<close>.\<close>

definition truthy :: "val \<Rightarrow> bool" where
  "truthy v = (case v of VStr s \<Rightarrow> s \<noteq> [] | VInt i \<Rightarrow> i \<noteq> 0 | VNone \<Rightarrow> False)"

definition py_str :: "'f builtins \<Rightarrow> val \<Rightarrow> bytes" where
  "py_str B v =
     (case v of
        VStr s \<Rightarrow> s
      | VInt i \<Rightarrow> py_str_int B i
      | VNone \<Rightarrow> [0x4E, 0x6F, 0x6E, 0x65])"

text \<open>
  \<^verbatim>\<open>matches_filter(db_number, key=None, data_type=None)\<close>.  The default \<^verbatim>\<open>key=None\<close> is
  \<open>VNone\<close>; the default \<^verbatim>\<open>data_type=None\<close> is \<open>None\<close>.
\<close>

definition matches_filter ::
  "'f builtins \<Rightarrow> filters \<Rightarrow> int \<Rightarrow> val \<Rightarrow> int option \<Rightarrow> error + bool" where
  "matches_filter B flt db_number key data_type =
     (if (case filters_dbs flt of None \<Rightarrow> False | Some ds \<Rightarrow> ds \<noteq> [] \<and> db_number \<notin> set ds)
      then Inr False
      else if truthy key \<and> \<not> filters_keys flt (py_str B key) then Inr False
      else
        (case data_type of
           None \<Rightarrow> Inr True
         | Some dt \<Rightarrow>
             and_then (get_logical_type dt) (\<lambda>t.
               if t \<notin> set (filters_types flt) then Inr False else Inr True)))"

section \<open>The driver\<close>

definition REDIS_RDB_OPCODE_EXPIRETIME_MS :: int where "REDIS_RDB_OPCODE_EXPIRETIME_MS = 252"
definition REDIS_RDB_OPCODE_EXPIRETIME :: int where "REDIS_RDB_OPCODE_EXPIRETIME = 253"
definition REDIS_RDB_OPCODE_SELECTDB :: int where "REDIS_RDB_OPCODE_SELECTDB = 254"
definition REDIS_RDB_OPCODE_EOF :: int where "REDIS_RDB_OPCODE_EOF = 255"

text \<open>
  \<^verbatim>\<open>to_datetime\<close>: \<^verbatim>\<open>datetime.utcfromtimestamp(econds_since_epoch)\<close> plus
  \<^verbatim>\<open>timedelta(microseconds = useconds)\<close>, as microseconds since the epoch.  The function
  computes \<^verbatim>\<open>seconds_since_epoch\<close> and then uses the constant \<^verbatim>\<open>econds_since_epoch\<close>.
\<close>

definition to_datetime :: "int \<Rightarrow> int" where
  "to_datetime usecs_since_epoch =
     (let seconds_since_epoch = usecs_since_epoch div 1000000;
          useconds = usecs_since_epoch mod 1000000;
          econds_since_epoch = 1385967984
      in econds_since_epoch * 1000000 + useconds)"

text \<open>The magic string \<^verbatim>\<open>'REDIS'\<close>.\<close>

definition verify_magic_string :: "bytes \<Rightarrow> error + unit" where
  "verify_magic_string magic_string =
     (if magic_string \<noteq> [0x52, 0x45, 0x44, 0x49, 0x53] then Inl BadMagic else Inr ())"

definition verify_version :: "'f builtins \<Rightarrow> bytes \<Rightarrow> error + unit" where
  "verify_version B version_str =
     (case py_int B version_str of
        None \<Rightarrow> Inl ValueError
      | Some version \<Rightarrow> if version < 1 \<or> version > 6 then Inl BadVersion else Inr ())"

text \<open>
  The body of the loop of \<^verbatim>\<open>parse\<close> has two parts of its own.  First the expiry
  opcodes (the \<^verbatim>\<open>if\<close>/\<^verbatim>\<open>elif\<close> at the top of the loop): the expiry that is pending and
  the byte that is then the data type.
\<close>

definition parse_expiry :: "int \<Rightarrow> bytes \<Rightarrow> error + (int option \<times> int) \<times> bytes" where
  "parse_expiry data_type f =
     (if data_type = REDIS_RDB_OPCODE_EXPIRETIME_MS then
        and_then (read_unsigned_long f) (\<lambda>(ms, f1).
        and_then (read_unsigned_char f1) (\<lambda>(data_type, f2).
          Inr ((Some (to_datetime (ms * 1000)), data_type), f2)))
      else if data_type = REDIS_RDB_OPCODE_EXPIRETIME then
        and_then (read_unsigned_int f) (\<lambda>(secs, f1).
        and_then (read_unsigned_char f1) (\<lambda>(data_type, f2).
          Inr ((Some (to_datetime (secs * 1000000)), data_type), f2)))
      else Inr ((None, data_type), f))"

text \<open>
  Then a record (the last \<^verbatim>\<open>if\<close>/\<^verbatim>\<open>else\<close> of the loop): the filter decides between the
  decoder and the skip path.
\<close>

definition parse_record ::
  "'f builtins \<Rightarrow> filters \<Rightarrow> int \<Rightarrow> int option \<Rightarrow> int \<Rightarrow> bytes
     \<Rightarrow> 'f event list \<times> (error + bytes)" where
  "parse_record B flt db_number expiry data_type f =
     ebind (lift (matches_filter B flt db_number VNone None)) (\<lambda>m.
       if m then
         ebind (lift (read_string f)) (\<lambda>(key, f1).
         ebind (lift (matches_filter B flt db_number key (Some data_type))) (\<lambda>m.
           if m then read_object B key expiry data_type f1
           else lift (skip_object f1 data_type)))
       else lift (skip_key_and_object f data_type))"

text \<open>
  Every reader leaves a stream that is no longer than the one it got, and a reader that
  returns has consumed at least its first byte.  The loop of \<^verbatim>\<open>parse\<close> terminates for
  that reason.
\<close>

lemma and_then_Inr: "and_then m k = Inr y \<longleftrightarrow> (\<exists>x. m = Inr x \<and> k x = Inr y)"
  by (cases m) (simp_all add: and_then_def)

lemma ebind_Inr:
  "ebind m k = (evs, Inr y) \<longleftrightarrow>
     (\<exists>evs1 x evs2. m = (evs1, Inr x) \<and> k x = (evs2, Inr y) \<and> evs = evs1 @ evs2)"
  by (cases m; cases "snd m") (auto simp: ebind_def split: prod.splits)

lemma lift_Inr: "lift r = (evs, Inr x) \<longleftrightarrow> evs = [] \<and> r = Inr x"
  by (auto simp: lift_def)

lemma emit_Inr: "emit ev = (evs, Inr x) \<longleftrightarrow> evs = [ev]"
  by (auto simp: emit_def)

lemma read_length_with_encoding_shorter:
  "read_length_with_encoding f = Inr (x, f') \<Longrightarrow> length f' < length f"
  by (auto simp: read_length_with_encoding_def and_then_Inr Let_def ntohl_def read_unsigned_int_def
      split: if_splits dest!: read_unsigned_char_shorter read_unsigned_shorter)

lemma read_length_shorter: "read_length f = Inr (x, f') \<Longrightarrow> length f' < length f"
  by (auto simp: read_length_def and_then_Inr dest!: read_length_with_encoding_shorter)

lemma read_string_shorter: "read_string f = Inr (x, f') \<Longrightarrow> length f' < length f"
  by (auto simp: read_string_def and_then_Inr read_signed_char_def read_signed_short_def
      read_signed_int_def f_read_def
      split: if_splits
      dest!: read_length_with_encoding_shorter read_length_shorter read_signed_shorter)

lemma skip_string_shorter: "skip_string f = Inr f' \<Longrightarrow> length f' < length f"
  by (auto simp: skip_string_def and_then_Inr
      split: if_splits prod.splits
      dest!: read_length_with_encoding_shorter read_length_shorter
      intro: le_less_trans [OF skip_shorter])

lemma skip_strings_loop_shorter: "skip_strings_loop n f = Inr f' \<Longrightarrow> length f' \<le> length f"
  by (induction n arbitrary: f) (fastforce simp: and_then_Inr dest!: skip_string_shorter)+

lemma skip_object_shorter: "skip_object f t = Inr f' \<Longrightarrow> length f' \<le> length f"
  by (auto simp: skip_object_def and_then_Inr
      split: if_splits
      dest!: read_length_shorter skip_strings_loop_shorter skip_string_shorter)

lemma skip_key_and_object_shorter:
  "skip_key_and_object f t = Inr f' \<Longrightarrow> length f' \<le> length f"
  by (auto simp: skip_key_and_object_def and_then_Inr
      dest!: skip_string_shorter skip_object_shorter)

lemma for_range_shorter:
  assumes "for_range n body f = (evs, Inr f')"
    and "\<And>f evs f'. body f = (evs, Inr f') \<Longrightarrow> length f' \<le> length f"
  shows "length f' \<le> length f"
  using assms(1)
proof (induction n arbitrary: f evs)
  case 0
  then show ?case by simp
next
  case (Suc n)
  then obtain evs1 f1 evs2 where "body f = (evs1, Inr f1)" "for_range n body f1 = (evs2, Inr f')"
    by (auto simp: ebind_Inr)
  then show ?case using assms(2) Suc.IH by fastforce
qed

lemma blob_case_Inr:
  "(case raw of VStr s \<Rightarrow> A s | VInt i \<Rightarrow> ([], Inl e) | VNone \<Rightarrow> ([], Inl e)) = (evs, Inr y)
     \<longleftrightarrow> (\<exists>s. raw = VStr s \<and> A s = (evs, Inr y))"
  by (cases raw) auto

lemma read_ziplist_shorter:
  "read_ziplist key expiry f = (evs, Inr f') \<Longrightarrow> length f' \<le> length f"
  by (auto simp: read_ziplist_def ebind_Inr lift_Inr emit_Inr blob_case_Inr
      split: if_splits dest!: read_string_shorter)

lemma read_intset_shorter:
  "read_intset key expiry f = (evs, Inr f') \<Longrightarrow> length f' \<le> length f"
  by (auto simp: read_intset_def ebind_Inr lift_Inr emit_Inr blob_case_Inr
      split: if_splits dest!: read_string_shorter)

lemma read_zset_from_ziplist_shorter:
  "read_zset_from_ziplist B key expiry f = (evs, Inr f') \<Longrightarrow> length f' \<le> length f"
  by (auto simp: read_zset_from_ziplist_def ebind_Inr lift_Inr emit_Inr Let_def blob_case_Inr
      split: if_splits dest!: read_string_shorter)

lemma read_hash_from_ziplist_shorter:
  "read_hash_from_ziplist key expiry f = (evs, Inr f') \<Longrightarrow> length f' \<le> length f"
  by (auto simp: read_hash_from_ziplist_def ebind_Inr lift_Inr emit_Inr Let_def blob_case_Inr
      split: if_splits dest!: read_string_shorter)

lemma read_zipmap_shorter:
  "read_zipmap B key expiry f = (evs, Inr f') \<Longrightarrow> length f' \<le> length f"
  by (auto simp: read_zipmap_def ebind_Inr lift_Inr emit_Inr blob_case_Inr
      split: if_splits dest!: read_string_shorter)

lemma read_object_shorter:
  "read_object B key expiry t f = (evs, Inr f') \<Longrightarrow> length f' \<le> length f"
  unfolding read_object_def
  apply (auto simp: ebind_Inr lift_Inr emit_Inr f_read_def
      split: if_splits option.splits
      dest!: read_string_shorter read_length_shorter read_zipmap_shorter read_ziplist_shorter
        read_intset_shorter read_zset_from_ziplist_shorter read_hash_from_ziplist_shorter
        read_unsigned_char_shorter for_range_shorter)
  apply linarith
  done

lemma parse_record_shorter:
  "parse_record B flt db expiry t f = (evs, Inr f') \<Longrightarrow> length f' \<le> length f"
  by (auto simp: parse_record_def ebind_Inr lift_Inr split: if_splits
      dest!: read_string_shorter read_object_shorter skip_object_shorter
        skip_key_and_object_shorter)

lemma parse_expiry_shorter:
  "parse_expiry t f = Inr (x, f') \<Longrightarrow> length f' \<le> length f"
  by (auto simp: parse_expiry_def and_then_Inr read_unsigned_long_def read_unsigned_int_def
      split: if_splits dest!: read_unsigned_shorter read_unsigned_char_shorter)

text \<open>
  The loop \<^verbatim>\<open>while True\<close> of \<^verbatim>\<open>parse\<close>, with the local variables
  \<^verbatim>\<open>is_first_database\<close> and \<^verbatim>\<open>db_number\<close>.  It returns at the opcode
  \<^verbatim>\<open>REDIS_RDB_OPCODE_EOF\<close> with the bytes that follow it.
\<close>

function parse_loop ::
  "'f builtins \<Rightarrow> filters \<Rightarrow> bool \<Rightarrow> int \<Rightarrow> bytes \<Rightarrow> 'f event list \<times> (error + bytes)" where
  "parse_loop B flt is_first_database db_number f =
     (case read_unsigned_char f of
        Inl e \<Rightarrow> ([], Inl e)
      | Inr (data_type, f1) \<Rightarrow>
          (case parse_expiry data_type f1 of
             Inl e \<Rightarrow> ([], Inl e)
           | Inr ((expiry, data_type), f2) \<Rightarrow>
               if data_type = REDIS_RDB_OPCODE_SELECTDB then
                 ebind (if \<not> is_first_database then emit (End_database db_number)
                        else ([], Inr ())) (\<lambda>_.
                   case read_length f2 of
                     Inl e \<Rightarrow> ([], Inl e)
                   | Inr (db_number, f3) \<Rightarrow>
                       ebind (emit (Start_database db_number)) (\<lambda>_.
                         parse_loop B flt False db_number f3))
               else if data_type = REDIS_RDB_OPCODE_EOF then
                 ([End_database db_number, End_rdb], Inr f2)
               else
                 (case parse_record B flt db_number expiry data_type f2 of
                    (evs, Inl e) \<Rightarrow> (evs, Inl e)
                  | (evs, Inr f3) \<Rightarrow>
                      (case parse_loop B flt is_first_database db_number f3 of
                         (evs', r) \<Rightarrow> (evs @ evs', r)))))"
  by pat_completeness auto
termination
  by (relation "measure (\<lambda>(B, flt, is_first, db, f). length f)")
     (auto dest!: read_unsigned_char_shorter parse_expiry_shorter read_length_shorter
        parse_record_shorter [OF sym])

declare parse_loop.simps [simp del]

definition parse ::
  "'f builtins \<Rightarrow> filters \<Rightarrow> bytes \<Rightarrow> 'f event list \<times> (error + bytes)" where
  "parse B flt file =
     (case f_read 5 file of (magic_string, f1) \<Rightarrow>
        ebind (lift (verify_magic_string magic_string)) (\<lambda>_.
          case f_read 4 f1 of (version_str, f2) \<Rightarrow>
            ebind (lift (verify_version B version_str)) (\<lambda>_.
            ebind (emit Start_rdb) (\<lambda>_.
              parse_loop B flt True 0 f2))))"

section \<open>Library functions for the examples\<close>

text \<open>
  The examples below run the parser on concrete dumps and need concrete library
  functions.  These agree with Python on the arguments the examples pass:
  \<^item> \<open>digits_int\<close> is \<^verbatim>\<open>int(s)\<close> on a string of decimal digits, and rejects, as
    \<^verbatim>\<open>int\<close> does, the empty string and a string with a letter in it;
  \<^item> \<open>digits_float\<close> is \<^verbatim>\<open>float(s)\<close> on the strings made of digits and at most one
    dot (the float is represented by its literal), and rejects, as \<^verbatim>\<open>float\<close> does, a
    string with a byte that is not ASCII;
  \<^item> \<open>int_str\<close> is \<^verbatim>\<open>str(i)\<close>, the decimal digits of an integer;
  \<^item> \<open>literal_match\<close> is \<^verbatim>\<open>re.compile(pat).match(s)\<close> for the pattern \<^verbatim>\<open>".*"\<close>, which
    matches every string, and for a pattern without metacharacters, which matches the
    strings that start with it.
\<close>

definition is_digit :: "byte \<Rightarrow> bool" where
  "is_digit b = (48 \<le> uint b \<and> uint b \<le> 57)"

definition digits_int :: "bytes \<Rightarrow> int option" where
  "digits_int s =
     (if s \<noteq> [] \<and> list_all is_digit s
      then Some (foldl (\<lambda>a b. 10 * a + (uint b - 48)) 0 s) else None)"

definition digits_float :: "bytes \<Rightarrow> bytes option" where
  "digits_float s =
     (if list_all (\<lambda>b. is_digit b \<or> b = 46) s \<and> list_ex is_digit s
         \<and> length (filter (\<lambda>b. b = 46) s) \<le> 1
      then Some s else None)"

fun nat_digits :: "nat \<Rightarrow> bytes" where
  "nat_digits n =
     (if n < 10 then [of_nat (48 + n)]
      else nat_digits (n div 10) @ [of_nat (48 + n mod 10)])"

definition int_str :: "int \<Rightarrow> bytes" where
  "int_str i = (if i < 0 then 45 # nat_digits (nat (- i)) else nat_digits (nat i))"

definition literal_match :: "bytes \<Rightarrow> bytes \<Rightarrow> bool" where
  "literal_match pat s = (pat = [0x2E, 0x2A] \<or> take (length pat) s = pat)"

definition example_builtins :: "bytes builtins" where
  "example_builtins =
     \<lparr> py_int = digits_int, py_float = digits_float, py_str_int = int_str,
       re_match = literal_match \<rparr>"

text \<open>
  The filter of a parser built with \<^verbatim>\<open>filters = None\<close>, and the filter built with
  \<^verbatim>\<open>{"types": "string"}\<close>.
\<close>

definition no_filter :: filters where
  "no_filter =
     \<lparr> filters_dbs = None, filters_keys = literal_match [0x2E, 0x2A],
       filters_types = [''set'', ''hash'', ''sortedset'', ''string'', ''list''] \<rparr>"

definition strings_only :: filters where
  "strings_only =
     \<lparr> filters_dbs = None, filters_keys = literal_match [0x2E, 0x2A],
       filters_types = [''string''] \<rparr>"

text \<open>
  The filter built with \<^verbatim>\<open>{"keys": "a", "types": "string"}\<close>: its regular expression
  matches the keys that start with \<^verbatim>\<open>a\<close>, and does not match the empty key.
\<close>

definition keys_a_strings :: filters where
  "keys_a_strings =
     \<lparr> filters_dbs = None, filters_keys = literal_match [0x61],
       filters_types = [''string''] \<rparr>"

text \<open>The first nine bytes of a dump of version 6: \<^verbatim>\<open>REDIS0006\<close>.\<close>

definition REDIS0006 :: bytes where
  "REDIS0006 = [0x52, 0x45, 0x44, 0x49, 0x53, 0x30, 0x30, 0x30, 0x36]"

section \<open>The three clauses of the filter\<close>

text \<open>
  What the claims about the filter call an allowed database, a key that passes and an
  allowed logical type.  A key that Python takes for false (the empty string, the
  integer 0, \<^verbatim>\<open>None\<close>) passes whatever the regular expression is.
\<close>

definition db_allowed :: "filters \<Rightarrow> int \<Rightarrow> bool" where
  "db_allowed flt db_number =
     (case filters_dbs flt of None \<Rightarrow> True | Some ds \<Rightarrow> ds = [] \<or> db_number \<in> set ds)"

definition key_passes :: "'f builtins \<Rightarrow> filters \<Rightarrow> val \<Rightarrow> bool" where
  "key_passes B flt key = (if truthy key then filters_keys flt (py_str B key) else True)"

definition type_allowed :: "filters \<Rightarrow> int \<Rightarrow> bool" where
  "type_allowed flt data_type =
     (case DATA_TYPE_MAPPING data_type of
        None \<Rightarrow> False
      | Some t \<Rightarrow> t \<in> set (filters_types flt))"

section \<open>Container records\<close>

text \<open>
  The calls that a list, a set, a sorted set or a hash produces: \<^verbatim>\<open>start_*\<close> with the
  announced length, one of \<^verbatim>\<open>rpush\<close>, \<^verbatim>\<open>sadd\<close>, \<^verbatim>\<open>zadd\<close>, \<^verbatim>\<open>hset\<close> per element, and
  \<^verbatim>\<open>end_*\<close>.  \<open>counted_record\<close> holds of a sequence of calls that opens with a start,
  closes with an end, and has between them as many element calls on the key as the
  start announced.
\<close>

fun element_of :: "val \<Rightarrow> 'f event \<Rightarrow> bool" where
  "element_of key (Rpush k v) = (k = key)"
| "element_of key (Sadd k v) = (k = key)"
| "element_of key (Zadd k s v) = (k = key)"
| "element_of key (Hset k a b) = (k = key)"
| "element_of key _ = False"

fun announced_length :: "'f event \<Rightarrow> int option" where
  "announced_length (Start_hash k n e i) = Some n"
| "announced_length (Start_set k n e i) = Some n"
| "announced_length (Start_list k n e i) = Some n"
| "announced_length (Start_sorted_set k n e i) = Some n"
| "announced_length _ = None"

fun is_end :: "'f event \<Rightarrow> bool" where
  "is_end (End_hash k) = True"
| "is_end (End_set k) = True"
| "is_end (End_list k) = True"
| "is_end (End_sorted_set k) = True"
| "is_end _ = False"

definition counted_record :: "val \<Rightarrow> 'f event list \<Rightarrow> bool" where
  "counted_record key evs =
     (\<exists>s items e n. evs = s # items @ [e] \<and> announced_length s = Some n \<and> is_end e \<and>
        list_all (element_of key) items \<and> int (length items) = n)"

section \<open>Arithmetic of the bit operations\<close>

lemma and_low6: "(x::int) AND 0x3F = x mod 64"
proof -
  have "(mask 6 :: int) = 63" by (simp add: mask_eq_exp_minus_1)
  then show ?thesis using take_bit_eq_mask [of 6 x] by (simp add: take_bit_eq_mod)
qed

lemma and_low5: "(x::int) AND 0x1F = x mod 32"
proof -
  have "(mask 5 :: int) = 31" by (simp add: mask_eq_exp_minus_1)
  then show ?thesis using take_bit_eq_mask [of 5 x] by (simp add: take_bit_eq_mod)
qed

lemma and_low8: "(x::int) AND 0xFF = x mod 256"
proof -
  have "(mask 8 :: int) = 255" by (simp add: mask_eq_exp_minus_1)
  then show ?thesis using take_bit_eq_mask [of 8 x] by (simp add: take_bit_eq_mod)
qed

lemma tag_div_and3: "drop_bit 6 (uint (b::byte)) AND 3 = uint b div 64"
proof -
  have "uint b div 64 < 4" using uint_lt2p [of b] by simp
  moreover have "0 \<le> uint b div 64"
    using uint_ge_0 [of b] by (simp add: pos_imp_zdiv_nonneg_iff)
  moreover have "(mask 2 :: int) = 3" by (simp add: mask_eq_exp_minus_1)
  ultimately have "(uint b div 64) AND 3 = uint b div 64"
    using take_bit_eq_mask [of 2 "uint b div 64"] by (simp add: take_bit_eq_mod)
  then show ?thesis by (simp add: drop_bit_eq_div)
qed

lemma tag_div: "drop_bit 6 (uint (b::byte) AND 0xC0) = uint b div 64"
proof -
  have "drop_bit 6 (uint b AND 0xC0) = drop_bit 6 (uint b) AND drop_bit 6 (0xC0::int)"
    by (simp only: drop_bit_and)
  moreover have "drop_bit 6 (0xC0::int) = 3"
    by (simp add: drop_bit_eq_div)
  ultimately show ?thesis by (simp only: tag_div_and3)
qed

lemma shift8_or: "0 \<le> y \<Longrightarrow> y < 256 \<Longrightarrow> push_bit 8 (x::int) OR y = x * 256 + y"
proof -
  assume "0 \<le> y" "y < 256"
  then have y: "y = take_bit 8 y" by (simp add: take_bit_eq_mod)
  have "push_bit 8 x AND take_bit 8 y = 0"
    by (rule bit_eqI) (auto simp: bit_simps)
  then have "push_bit 8 x OR take_bit 8 y = push_bit 8 x + take_bit 8 y"
    by (simp add: disjunctive_add_eq_or)
  with y show ?thesis by (simp add: push_bit_eq_mult)
qed

lemma byte_field_mask:
  "(x::int) AND push_bit k (mask 8) = push_bit k (take_bit 8 (drop_bit k x))"
  by (rule bit_eqI) (auto simp: bit_simps)

lemma byte_field:
  "(x::int) AND (255 * 2 ^ k) = 2 ^ k * ((x div 2 ^ k) mod 256)"
proof -
  have "(mask 8 :: int) = 255" by (simp add: mask_eq_exp_minus_1)
  then show ?thesis
    using byte_field_mask [of x k]
    by (simp add: push_bit_eq_mult take_bit_eq_mod drop_bit_eq_div mult.commute)
qed

lemma split_low: "0 \<le> x \<Longrightarrow> x < 256 \<Longrightarrow> (x + 256 * r) mod 256 = (x::int)"
  by simp

lemma split_high: "0 \<le> x \<Longrightarrow> x < 256 \<Longrightarrow> (x + 256 * r) div 256 = (r::int)"
  by simp

lemma or_bytes_sum:
  fixes A B C D :: int
  defines "X \<equiv> push_bit 24 (take_bit 8 A)" and "Y \<equiv> take_bit 8 D"
    and "Z \<equiv> push_bit 16 (take_bit 8 B)" and "W \<equiv> push_bit 8 (take_bit 8 C)"
  shows "((X OR Y) OR Z) OR W = X + Y + Z + W"
proof -
  have 1: "X AND Y = 0"
    unfolding X_def Y_def by (rule bit_eqI) (auto simp: bit_simps)
  have 2: "(X OR Y) AND Z = 0"
    unfolding X_def Y_def Z_def by (rule bit_eqI) (auto simp: bit_simps)
  have 3: "((X OR Y) OR Z) AND W = 0"
    unfolding X_def Y_def Z_def W_def by (rule bit_eqI) (auto simp: bit_simps)
  have "X + Y = X OR Y" using 1 by (rule disjunctive_add_eq_or)
  moreover have "(X OR Y) + Z = (X OR Y) OR Z" using 2 by (rule disjunctive_add_eq_or)
  moreover have "((X OR Y) OR Z) + W = ((X OR Y) OR Z) OR W"
    using 3 by (rule disjunctive_add_eq_or)
  ultimately show ?thesis by simp
qed

text \<open>The byte swap of \<^verbatim>\<open>ntohl\<close> on a little-endian read is the big-endian value.\<close>

lemma ntohl_value:
  fixes a b c d :: byte
  defines "val \<equiv> le_int [a, b, c, d]"
  shows "(((0 OR push_bit 24 (val AND 0x000000ff)) OR drop_bit 24 (val AND 0xff000000))
           OR push_bit 8 (val AND 0x0000ff00)) OR drop_bit 8 (val AND 0x00ff0000)
         = uint a * 2 ^ 24 + uint b * 2 ^ 16 + uint c * 2 ^ 8 + uint d"
proof -
  have ua: "0 \<le> uint a" "uint a < 256" and ub: "0 \<le> uint b" "uint b < 256"
    and uc: "0 \<le> uint c" "uint c < 256" and ud: "0 \<le> uint d" "uint d < 256"
    using uint_lt2p [of a] uint_lt2p [of b] uint_lt2p [of c] uint_lt2p [of d] by simp_all
  define r2 where "r2 = uint c + 256 * uint d"
  define r1 where "r1 = uint b + 256 * r2"
  have v: "val = uint a + 256 * r1"
    by (simp add: val_def r1_def r2_def)
  have e1: "val div 256 = r1" unfolding v using ua by (rule split_high)
  have "val div 65536 = (val div 256) div 256" by (simp add: zdiv_zmult2_eq)
  then have e2: "val div 65536 = r2" unfolding e1 r1_def using ub by (simp only: split_high)
  have "val div 16777216 = (val div 65536) div 256" by (simp add: zdiv_zmult2_eq)
  then have e3: "val div 16777216 = uint d"
    unfolding e2 r2_def using uc by (simp only: split_high)
  have d0: "val mod 256 = uint a" unfolding v using ua by (rule split_low)
  have d1: "(val div 256) mod 256 = uint b" unfolding e1 r1_def using ub by (rule split_low)
  have d2: "(val div 65536) mod 256 = uint c" unfolding e2 r2_def using uc by (rule split_low)
  have d3: "(val div 16777216) mod 256 = uint d" unfolding e3 using ud by simp
  have p0: "val AND 0xff = uint a"
    by (simp add: and_low8 d0)
  have p1: "val AND 0xff00 = 256 * uint b"
    using byte_field [of val 8] by (simp add: d1)
  have p2: "val AND 0xff0000 = 65536 * uint c"
    using byte_field [of val 16] by (simp add: d2)
  have p3: "val AND 0xff000000 = 16777216 * uint d"
    using byte_field [of val 24] by (simp add: d3)
  have t: "take_bit 8 (uint a) = uint a" "take_bit 8 (uint b) = uint b"
    "take_bit 8 (uint c) = uint c" "take_bit 8 (uint d) = uint d"
    using ua ub uc ud by (simp_all add: take_bit_eq_mod)
  have "(((0 OR push_bit 24 (val AND 0x000000ff)) OR drop_bit 24 (val AND 0xff000000))
           OR push_bit 8 (val AND 0x0000ff00)) OR drop_bit 8 (val AND 0x00ff0000)
        = ((push_bit 24 (uint a) OR uint d) OR push_bit 16 (uint b)) OR push_bit 8 (uint c)"
    by (simp add: p0 p1 p2 p3 drop_bit_eq_div push_bit_eq_mult mult.commute)
  also have "\<dots> = push_bit 24 (uint a) + uint d + push_bit 16 (uint b) + push_bit 8 (uint c)"
    using or_bytes_sum [of "uint a" "uint d" "uint b" "uint c"] by (simp only: t)
  finally show ?thesis by (simp add: push_bit_eq_mult)
qed

section \<open>Reading from a stream with bytes left\<close>

lemma read_unsigned_char_Cons: "read_unsigned_char (b # f) = Inr (uint b, f)"
  by (simp add: read_unsigned_char_def read_unsigned_def f_read_def unpack_unsigned_def
      and_then_def)

lemma read_unsigned_char_Nil: "read_unsigned_char [] = Inl StructError"
  by (simp add: read_unsigned_char_def read_unsigned_def f_read_def unpack_unsigned_def
      and_then_def)

lemma ntohl_Cons4:
  "ntohl (a # b # c # d # f)
     = Inr (uint a * 2 ^ 24 + uint b * 2 ^ 16 + uint c * 2 ^ 8 + uint d, f)"
  using ntohl_value [of a b c d]
  by (simp add: ntohl_def read_unsigned_int_def read_unsigned_def f_read_def
      unpack_unsigned_def and_then_def Let_def)

section \<open>The length codec, by tag\<close>

text \<open>
  Claim C5.  The two top bits of the first byte \<open>b\<close> are the tag \<open>uint b div 64\<close>.
  For tag 00 the length is the low six bits of \<open>b\<close>; for tag 01 it is the 14-bit value
  made of the low six bits of \<open>b\<close> and the next byte; for tag 10 it is the next four
  bytes as a big-endian unsigned 32-bit integer (first byte most significant); for tag
  11 the low six bits are returned with \<open>is_encoded = True\<close>.  The first three are not
  encoded.
\<close>

theorem read_length_with_encoding_by_tag:
  "(uint b div 64 = 0 \<longrightarrow>
      read_length_with_encoding (b # rest) = Inr ((uint b mod 64, False), rest)) \<and>
   (uint b div 64 = 1 \<longrightarrow>
      read_length_with_encoding (b # b2 # rest)
        = Inr (((uint b mod 64) * 256 + uint b2, False), rest)) \<and>
   (uint b div 64 = 2 \<longrightarrow>
      read_length_with_encoding (b # a3 # a2 # a1 # a0 # rest)
        = Inr ((uint a3 * 2 ^ 24 + uint a2 * 2 ^ 16 + uint a1 * 2 ^ 8 + uint a0, False),
               rest)) \<and>
   (uint b div 64 = 3 \<longrightarrow>
      read_length_with_encoding (b # rest) = Inr ((uint b mod 64, True), rest))"
proof -
  have b2: "0 \<le> uint b2" "uint b2 < 256" using uint_lt2p [of b2] by simp_all
  show ?thesis
    by (simp add: read_length_with_encoding_def read_unsigned_char_Cons and_then_def tag_div
        tag_div_and3 Let_def and_low6 shift8_or [OF b2] ntohl_Cons4 REDIS_RDB_ENCVAL_def
        REDIS_RDB_6BITLEN_def REDIS_RDB_14BITLEN_def)
qed

theorem read_length_with_encoding_by_tag_witness:
  "read_length_with_encoding [0x0A, 0x99] = Inr ((10, False), [0x99]) \<and>
   read_length_with_encoding [0x41, 0x02, 0x99] = Inr ((258, False), [0x99]) \<and>
   read_length_with_encoding [0x80, 0x00, 0x00, 0x01, 0x02, 0x99]
     = Inr ((258, False), [0x99]) \<and>
   read_length_with_encoding [0xC3, 0x99] = Inr ((3, True), [0x99])"
  using read_length_with_encoding_by_tag [of "0x0A" "[0x99]" "0x02" "0" "0" "0" "0"]
    read_length_with_encoding_by_tag [of "0x41" "[0x99]" "0x02" "0" "0" "0" "0"]
    read_length_with_encoding_by_tag [of "0x80" "[0x99]" "0x02" "0" "0" "1" "2"]
    read_length_with_encoding_by_tag [of "0xC3" "[0x99]" "0x02" "0" "0" "0" "0"]
  by simp

section \<open>Strings with an unknown encoding selector\<close>

text \<open>
  Claim C3.  The first byte \<^verbatim>\<open>0xC4\<close> has tag 11 and selector 4, which is none of INT8,
  INT16, INT32 and LZF.  \<^verbatim>\<open>read_string\<close> has no \<^verbatim>\<open>else\<close> branch for it: it raises
  nothing, it returns \<^verbatim>\<open>None\<close> and leaves the stream right after the prefix.
\<close>

theorem read_string_unknown_selector:
  "read_string [0xC4, 0x41] = Inr (VNone, [0x41])"
  by (simp add: read_string_def read_length_with_encoding_def read_unsigned_char_Cons
      and_then_def REDIS_RDB_ENCVAL_def REDIS_RDB_ENC_INT8_def REDIS_RDB_ENC_INT16_def
      REDIS_RDB_ENC_INT32_def REDIS_RDB_ENC_LZF_def)

section \<open>The filters of the examples\<close>

lemma init_filter_None:
  "init_filter example_builtins \<lparr> cfg_dbs = None, cfg_keys = None, cfg_types = None \<rparr>
     = Inr no_filter"
  by (simp add: init_filter_def and_then_def no_filter_def example_builtins_def)

lemma init_filter_strings_only:
  "init_filter example_builtins
     \<lparr> cfg_dbs = None, cfg_keys = None, cfg_types = Some (TypesStr ''string'') \<rparr>
     = Inr strings_only"
  by (simp add: init_filter_def and_then_def strings_only_def example_builtins_def)

lemma init_filter_keys_a_strings:
  "init_filter example_builtins
     \<lparr> cfg_dbs = None, cfg_keys = Some [0x61], cfg_types = Some (TypesStr ''string'') \<rparr>
     = Inr keys_a_strings"
  by (simp add: init_filter_def and_then_def keys_a_strings_def example_builtins_def)

section \<open>The length announced for a zipmap\<close>

text \<open>
  Claim C1.  A hash stored as a zipmap (type 9) whose blob is \<^verbatim>\<open>02 01 61 01 00 62 FF\<close>:
  the first byte announces two entries, one entry \<^verbatim>\<open>a\<close> \<open>\<mapsto>\<close> \<^verbatim>\<open>b\<close> follows, then the
  terminator.  \<^verbatim>\<open>start_hash\<close> is called with length 2 and \<^verbatim>\<open>hset\<close> once.
\<close>

theorem read_zipmap_length_not_enforced:
  "read_object example_builtins (VStr [0x6B]) None REDIS_RDB_TYPE_HASH_ZIPMAP
     [0x07, 0x02, 0x01, 0x61, 0x01, 0x00, 0x62, 0xFF]
   = ([Start_hash (VStr [0x6B]) 2 None (Info ''zipmap'' (Some 7)),
       Hset (VStr [0x6B]) (VStr [0x61]) (VStr [0x62]),
       End_hash (VStr [0x6B])], Inr [])"
  by code_simp

section \<open>The length announced by the other encodings\<close>

text \<open>
  For every container type except the zipmap the loop of the decoder runs over the
  announced length, so a record that is decoded to its end is a counted record.
\<close>

lemmas type_tags =
  REDIS_RDB_TYPE_STRING_def REDIS_RDB_TYPE_LIST_def REDIS_RDB_TYPE_SET_def
  REDIS_RDB_TYPE_ZSET_def REDIS_RDB_TYPE_HASH_def REDIS_RDB_TYPE_HASH_ZIPMAP_def
  REDIS_RDB_TYPE_LIST_ZIPLIST_def REDIS_RDB_TYPE_SET_INTSET_def
  REDIS_RDB_TYPE_ZSET_ZIPLIST_def REDIS_RDB_TYPE_HASH_ZIPLIST_def

lemma counted_recordI:
  "announced_length s = Some n \<Longrightarrow> is_end e \<Longrightarrow> list_all (element_of key) items \<Longrightarrow>
   length items = nat n \<Longrightarrow> 0 \<le> n \<Longrightarrow> counted_record key (s # items @ [e])"
  unfolding counted_record_def by (intro exI [of _ s] exI [of _ items] exI [of _ e] exI [of _ n]) simp

lemma for_range_elements:
  assumes "for_range n body f = (evs, Inr f')"
    and "\<And>f evs f'. body f = (evs, Inr f') \<Longrightarrow> length evs = 1 \<and> list_all P evs"
  shows "length evs = n \<and> list_all P evs"
  using assms(1)
proof (induction n arbitrary: f evs)
  case 0
  then show ?case by simp
next
  case (Suc n)
  then obtain evs1 f1 evs2 where
    b: "body f = (evs1, Inr f1)" and r: "for_range n body f1 = (evs2, Inr f')"
    and e: "evs = evs1 @ evs2"
    by (auto simp: ebind_Inr)
  from assms(2) [OF b] Suc.IH [OF r] e show ?case by simp
qed

lemma le_int_nonneg: "0 \<le> le_int s"
  by (induction s) simp_all

lemma read_unsigned_nonneg: "read_unsigned n f = Inr (v, f') \<Longrightarrow> 0 \<le> v"
  by (auto simp: read_unsigned_def f_read_def unpack_unsigned_def and_then_def le_int_nonneg
      split: if_splits)

lemma read_length_nonneg: "read_length f = Inr (n, f') \<Longrightarrow> 0 \<le> n"
  by (auto simp: read_length_def read_length_with_encoding_def and_then_Inr Let_def ntohl_def
      read_unsigned_char_def read_unsigned_int_def
      split: if_splits dest!: read_unsigned_nonneg)

lemma float_score_Inr:
  "(case py_float B t of
      None \<Rightarrow> ([], Inl ValueError)
    | Some x \<Rightarrow> ([Zadd key (FloatScore x) v], Inr f)) = (evs, Inr f')
   \<longleftrightarrow> (\<exists>x. py_float B t = Some x \<and> evs = [Zadd key (FloatScore x) v] \<and> f' = f)"
  by (cases "py_float B t") auto

lemma read_object_list_counted:
  assumes "read_object B key expiry REDIS_RDB_TYPE_LIST f = (evs, Inr f')"
  shows "counted_record key evs"
proof -
  from assms obtain len f1 items where
    l: "read_length f = Inr (len, f1)"
    and r: "for_range (nat len) (\<lambda>f. ebind (lift (read_string f))
              (\<lambda>(v, f). ([Rpush key v :: 'a event], Inr f))) f1 = (items, Inr f')"
    and e: "evs = Start_list key len expiry (Info ''linkedlist'' None) # items @ [End_list key]"
    by (auto simp: read_object_def type_tags ebind_Inr lift_Inr emit_Inr)
  have "length items = nat len \<and> list_all (element_of key) items"
    by (rule for_range_elements [OF r]) (auto simp: ebind_Inr lift_Inr)
  with read_length_nonneg [OF l] show ?thesis
    unfolding e by (intro counted_recordI) simp_all
qed

lemma read_object_set_counted:
  assumes "read_object B key expiry REDIS_RDB_TYPE_SET f = (evs, Inr f')"
  shows "counted_record key evs"
proof -
  from assms obtain len f1 items where
    l: "read_length f = Inr (len, f1)"
    and r: "for_range (nat len) (\<lambda>f. ebind (lift (read_string f))
              (\<lambda>(v, f). ([Sadd key v :: 'a event], Inr f))) f1 = (items, Inr f')"
    and e: "evs = Start_set key len expiry (Info ''hashtable'' None) # items @ [End_set key]"
    by (auto simp: read_object_def type_tags ebind_Inr lift_Inr emit_Inr)
  have "length items = nat len \<and> list_all (element_of key) items"
    by (rule for_range_elements [OF r]) (auto simp: ebind_Inr lift_Inr)
  with read_length_nonneg [OF l] show ?thesis
    unfolding e by (intro counted_recordI) simp_all
qed

lemma read_object_zset_counted:
  assumes "read_object B key expiry REDIS_RDB_TYPE_ZSET f = (evs, Inr f')"
  shows "counted_record key evs"
proof -
  from assms obtain len f1 items where
    l: "read_length f = Inr (len, f1)"
    and r: "for_range (nat len) (\<lambda>f.
                 ebind (lift (read_string f)) (\<lambda>(v, f).
                 ebind (lift (read_unsigned_char f)) (\<lambda>(dbl_length, f).
                   case f_read dbl_length f of (score, f) \<Rightarrow>
                     (case py_float B score of
                        None \<Rightarrow> ([], Inl ValueError)
                      | Some x \<Rightarrow> ([Zadd key (FloatScore x) v], Inr f))))) f1
              = (items, Inr f')"
    and e: "evs = Start_sorted_set key len expiry (Info ''skiplist'' None) # items
                    @ [End_sorted_set key]"
    by (auto simp: read_object_def type_tags ebind_Inr lift_Inr emit_Inr)
  have "length items = nat len \<and> list_all (element_of key) items"
    by (rule for_range_elements [OF r])
       (auto simp: ebind_Inr lift_Inr float_score_Inr case_prod_beta)
  with read_length_nonneg [OF l] show ?thesis
    unfolding e by (intro counted_recordI) simp_all
qed

lemma read_object_hash_counted:
  assumes "read_object B key expiry REDIS_RDB_TYPE_HASH f = (evs, Inr f')"
  shows "counted_record key evs"
proof -
  from assms obtain len f1 items where
    l: "read_length f = Inr (len, f1)"
    and r: "for_range (nat len) (\<lambda>f.
                 ebind (lift (read_string f)) (\<lambda>(field, f).
                 ebind (lift (read_string f)) (\<lambda>(v, f).
                   ([Hset key field v :: 'a event], Inr f)))) f1 = (items, Inr f')"
    and e: "evs = Start_hash key len expiry (Info ''hashtable'' None) # items @ [End_hash key]"
    by (auto simp: read_object_def type_tags ebind_Inr lift_Inr emit_Inr)
  have "length items = nat len \<and> list_all (element_of key) items"
    by (rule for_range_elements [OF r]) (auto simp: ebind_Inr lift_Inr)
  with read_length_nonneg [OF l] show ?thesis
    unfolding e by (intro counted_recordI) simp_all
qed

lemma loop_rpush_entries:
  "for_range n (\<lambda>buff. ebind (lift (read_ziplist_entry buff))
      (\<lambda>(v, buff). ([Rpush key v], Inr buff))) b = (items, Inr b')
   \<Longrightarrow> length items = n \<and> list_all (element_of key) items"
  by (erule for_range_elements) (auto simp: ebind_Inr lift_Inr)

lemma loop_sadd_ints:
  "for_range n (\<lambda>buff.
      ebind (lift (if enc = (8 :: int) then read_unsigned_long buff
                   else if enc = 4 then read_unsigned_int buff
                   else if enc = 2 then read_unsigned_short buff
                   else Inl BadIntsetEncoding)) (\<lambda>(entry, buff).
        ([Sadd key (VInt entry)], Inr buff))) b = (items, Inr b')
   \<Longrightarrow> length items = n \<and> list_all (element_of key) items"
  by (erule for_range_elements) (auto simp: ebind_Inr lift_Inr)

lemma score_case_Inr:
  "(case score of
      VStr t \<Rightarrow> (case py_float B t of
                   None \<Rightarrow> ([], Inl ValueError)
                 | Some x \<Rightarrow> ([Zadd key (FloatScore x) member], Inr buff))
    | _ \<Rightarrow> ([Zadd key (OtherScore score) member], Inr buff)) = (evs, Inr f')
   \<Longrightarrow> \<exists>sc. evs = [Zadd key sc member]"
  by (cases score; cases "py_float B (case score of VStr t \<Rightarrow> t | _ \<Rightarrow> [])") auto

lemma loop_zadd_entries:
  "for_range n (\<lambda>buff.
      ebind (lift (read_ziplist_entry buff)) (\<lambda>(member, buff).
      ebind (lift (read_ziplist_entry buff)) (\<lambda>(score, buff).
        case score of
          VStr t \<Rightarrow>
            (case py_float B t of
               None \<Rightarrow> ([], Inl ValueError)
             | Some x \<Rightarrow> ([Zadd key (FloatScore x) member], Inr buff))
        | _ \<Rightarrow> ([Zadd key (OtherScore score) member], Inr buff)))) b = (items, Inr b')
   \<Longrightarrow> length items = n \<and> list_all (element_of key) items"
  by (erule for_range_elements) (auto simp: ebind_Inr lift_Inr dest!: score_case_Inr)

lemma loop_hset_entries:
  "for_range n (\<lambda>buff.
      ebind (lift (read_ziplist_entry buff)) (\<lambda>(field, buff).
      ebind (lift (read_ziplist_entry buff)) (\<lambda>(v, buff).
        ([Hset key field v], Inr buff)))) b = (items, Inr b')
   \<Longrightarrow> length items = n \<and> list_all (element_of key) items"
  by (erule for_range_elements) (auto simp: ebind_Inr lift_Inr)

lemma read_ziplist_counted:
  assumes "read_ziplist key expiry f = (evs, Inr f')"
  shows "counted_record key evs"
  using assms
  by (auto simp: read_ziplist_def ebind_Inr lift_Inr emit_Inr blob_case_Inr
        read_unsigned_short_def read_unsigned_int_def
      split: if_splits dest!: loop_rpush_entries read_unsigned_nonneg
      intro!: counted_recordI)

lemma read_intset_counted:
  assumes "read_intset key expiry f = (evs, Inr f')"
  shows "counted_record key evs"
  using assms
  by (auto simp: read_intset_def ebind_Inr lift_Inr emit_Inr blob_case_Inr
        read_unsigned_int_def
      split: if_splits dest!: loop_sadd_ints read_unsigned_nonneg
      intro!: counted_recordI)

lemma read_zset_from_ziplist_counted:
  assumes "read_zset_from_ziplist B key expiry f = (evs, Inr f')"
  shows "counted_record key evs"
  using assms
  by (auto simp: read_zset_from_ziplist_def ebind_Inr lift_Inr emit_Inr blob_case_Inr Let_def
        read_unsigned_short_def read_unsigned_int_def pos_imp_zdiv_nonneg_iff
      split: if_splits dest!: loop_zadd_entries read_unsigned_nonneg
      intro!: counted_recordI)

lemma read_hash_from_ziplist_counted:
  assumes "read_hash_from_ziplist key expiry f = (evs, Inr f')"
  shows "counted_record key evs"
  using assms
  by (auto simp: read_hash_from_ziplist_def ebind_Inr lift_Inr emit_Inr blob_case_Inr Let_def
        read_unsigned_short_def read_unsigned_int_def pos_imp_zdiv_nonneg_iff
      split: if_splits dest!: loop_hset_entries read_unsigned_nonneg
      intro!: counted_recordI)

lemma read_object_counted:
  assumes "read_object B key expiry t f = (evs, Inr f')"
    and "t \<noteq> REDIS_RDB_TYPE_STRING" and "t \<noteq> REDIS_RDB_TYPE_HASH_ZIPMAP"
  shows "counted_record key evs"
proof -
  consider "t = REDIS_RDB_TYPE_LIST" | "t = REDIS_RDB_TYPE_SET" | "t = REDIS_RDB_TYPE_ZSET"
    | "t = REDIS_RDB_TYPE_HASH" | "t = REDIS_RDB_TYPE_LIST_ZIPLIST"
    | "t = REDIS_RDB_TYPE_SET_INTSET" | "t = REDIS_RDB_TYPE_ZSET_ZIPLIST"
    | "t = REDIS_RDB_TYPE_HASH_ZIPLIST"
    | "t \<notin> {0, 1, 2, 3, 4, 9, 10, 11, 12, 13}"
    using assms(2,3) by (auto simp: type_tags)
  then show ?thesis
  proof cases
    case 1 with assms(1) show ?thesis by (simp add: read_object_list_counted)
  next
    case 2 with assms(1) show ?thesis by (simp add: read_object_set_counted)
  next
    case 3 with assms(1) show ?thesis by (simp add: read_object_zset_counted)
  next
    case 4 with assms(1) show ?thesis by (simp add: read_object_hash_counted)
  next
    case 5 with assms(1) show ?thesis
      by (auto simp: read_object_def type_tags dest: read_ziplist_counted)
  next
    case 6 with assms(1) show ?thesis
      by (auto simp: read_object_def type_tags dest: read_intset_counted)
  next
    case 7 with assms(1) show ?thesis
      by (auto simp: read_object_def type_tags dest: read_zset_from_ziplist_counted)
  next
    case 8 with assms(1) show ?thesis
      by (auto simp: read_object_def type_tags dest: read_hash_from_ziplist_counted)
  next
    case 9 with assms(1) show ?thesis by (auto simp: read_object_def type_tags)
  qed
qed

section \<open>The expiry that the callback receives\<close>

text \<open>
  Claim C2.  The dump \<^verbatim>\<open>REDIS0006 FE 00 FC <1700000000000 as u64> 00 01 6B 03 62 61 72 FF\<close>
  holds one string with an expiry of 1700000000000 milliseconds, which is the instant
  1700000000000000 in microseconds.  \<^verbatim>\<open>set\<close> receives 1385967984000000: the constant
  second of \<^verbatim>\<open>to_datetime\<close> and the microseconds of the timestamp.
\<close>

theorem parse_expiry_ms_delivered:
  "le_int [0x00, 0x68, 0xE5, 0xCF, 0x8B, 0x01, 0x00, 0x00] = 1700000000000 \<and>
   parse example_builtins no_filter
     (REDIS0006 @ [0xFE, 0x00,
        0xFC, 0x00, 0x68, 0xE5, 0xCF, 0x8B, 0x01, 0x00, 0x00,
        0x00, 0x01, 0x6B, 0x03, 0x62, 0x61, 0x72, 0xFF])
   = ([Start_rdb, Start_database 0,
       Set_key (VStr [0x6B]) (VStr [0x62, 0x61, 0x72]) (Some 1385967984000000)
         (Info ''string'' None),
       End_database 0, End_rdb], Inr [])"
  by code_simp

section \<open>Skipping a sorted set\<close>

text \<open>
  Claim C7.  Two dumps with one plain sorted set (type 3) under the key \<^verbatim>\<open>k\<close>, with one
  member \<^verbatim>\<open>m\<close>.

  In the first the score is the length byte \<^verbatim>\<open>0x40\<close> followed by 64 ASCII digits.  The
  decoder reads the length byte and 64 bytes, and stops before the opcode \<^verbatim>\<open>FF\<close>.  The
  skip path reads the score with \<^verbatim>\<open>skip_string\<close>, which takes \<^verbatim>\<open>0x40\<close> for the first
  byte of a 14-bit length: it stops 16 bytes early.  With a filter that rejects the
  record the parse then takes the digit \<^verbatim>\<open>0\<close> for a data type and fails, where the
  parse that decodes the record ends at the opcode \<^verbatim>\<open>FF\<close>.

  In the second the score is the single byte \<^verbatim>\<open>0xFF\<close>, which is how Redis writes the
  score \<^verbatim>\<open>-inf\<close>, and the opcode \<^verbatim>\<open>FF\<close> and eight checksum bytes follow.  The skip path
  consumes that one byte and the parse ends at the opcode \<^verbatim>\<open>FF\<close>.  The decoder takes
  \<^verbatim>\<open>0xFF\<close> for a length, reads the rest of the file as the score and fails in
  \<^verbatim>\<open>float\<close>.
\<close>

definition zset_long_score :: bytes where
  "zset_long_score = [0x01, 0x01, 0x6D, 0x40] @ replicate 63 0x30 @ [0x31]"

definition zset_minus_inf :: bytes where
  "zset_minus_inf = [0x01, 0x01, 0x6D, 0xFF]"

theorem skip_object_zset_score_diverges:
  "snd (read_object example_builtins (VStr [0x6B]) None REDIS_RDB_TYPE_ZSET
          (zset_long_score @ [0xFF])) = Inr [0xFF] \<and>
   skip_object (zset_long_score @ [0xFF]) REDIS_RDB_TYPE_ZSET
     = Inr (replicate 14 0x30 @ [0x31, 0xFF]) \<and>
   snd (parse example_builtins no_filter
          (REDIS0006 @ [0xFE, 0x00, 0x03, 0x01, 0x6B] @ zset_long_score @ [0xFF])) = Inr [] \<and>
   parse example_builtins strings_only
          (REDIS0006 @ [0xFE, 0x00, 0x03, 0x01, 0x6B] @ zset_long_score @ [0xFF])
     = ([Start_rdb, Start_database 0], Inl KeyError) \<and>
   parse example_builtins strings_only
          (REDIS0006 @ [0xFE, 0x00, 0x03, 0x01, 0x6B] @ zset_minus_inf @ [0xFF]
             @ replicate 8 0x00)
     = ([Start_rdb, Start_database 0, End_database 0, End_rdb], Inr (replicate 8 0x00)) \<and>
   parse example_builtins no_filter
          (REDIS0006 @ [0xFE, 0x00, 0x03, 0x01, 0x6B] @ zset_minus_inf @ [0xFF]
             @ replicate 8 0x00)
     = ([Start_rdb, Start_database 0,
         Start_sorted_set (VStr [0x6B]) 1 None (Info ''skiplist'' None)], Inl ValueError)"
  by code_simp

section \<open>The skip path on the other types\<close>

text \<open>
  \<^verbatim>\<open>skip_string\<close> stops where \<^verbatim>\<open>read_string\<close> stops.  Hence for every type except the
  plain sorted set, when the decoder gets to the end of a record the skip path ends at
  the same byte.
\<close>

lemma skip_eq_drop: "skip f n = drop (nat n) f"
  by (simp add: skip_def f_read_def)

lemma read_signed_rest: "read_signed n f = Inr (v, f') \<Longrightarrow> f' = drop n f"
  by (auto simp: read_signed_def f_read_def unpack_signed_def and_then_def split: if_splits)

lemma read_string_then_skip:
  assumes "read_string f = Inr (v, f')"
  shows "skip_string f = Inr f'"
proof -
  from assms obtain len enc f1 where
    h: "read_length_with_encoding f = Inr ((len, enc), f1)"
    by (auto simp: read_string_def and_then_Inr)
  show ?thesis
    using assms h
    by (auto simp: read_string_def skip_string_def and_then_def skip_eq_drop f_read_def
        read_signed_char_def read_signed_short_def read_signed_int_def
        split: if_splits sum.splits prod.splits dest!: read_signed_rest)
qed

lemma for_range_one_string_skip:
  "for_range n (\<lambda>f. ebind (lift (read_string f)) (\<lambda>(v, f). ([ev v], Inr f))) f = (evs, Inr f')
     \<Longrightarrow> skip_strings_loop n f = Inr f'"
proof (induction n arbitrary: f evs)
  case 0
  then show ?case by simp
next
  case (Suc n)
  then obtain v f1 evs2 where
    "read_string f = Inr (v, f1)"
    "for_range n (\<lambda>f. ebind (lift (read_string f)) (\<lambda>(v, f). ([ev v], Inr f))) f1
       = (evs2, Inr f')"
    by (auto simp: ebind_Inr lift_Inr)
  then show ?case
    using Suc.IH by (simp add: read_string_then_skip and_then_def)
qed

lemma for_range_two_strings_skip:
  "for_range n (\<lambda>f. ebind (lift (read_string f)) (\<lambda>(a, f).
       ebind (lift (read_string f)) (\<lambda>(b, f). ([ev a b], Inr f)))) f = (evs, Inr f')
     \<Longrightarrow> skip_strings_loop (2 * n) f = Inr f'"
proof (induction n arbitrary: f evs)
  case 0
  then show ?case by simp
next
  case (Suc n)
  then obtain a f1 b f2 evs2 where
    "read_string f = Inr (a, f1)" "read_string f1 = Inr (b, f2)"
    "for_range n (\<lambda>f. ebind (lift (read_string f)) (\<lambda>(a, f).
       ebind (lift (read_string f)) (\<lambda>(b, f). ([ev a b], Inr f)))) f2 = (evs2, Inr f')"
    by (auto simp: ebind_Inr lift_Inr)
  then show ?case
    using Suc.IH by (simp add: read_string_then_skip and_then_def)
qed

lemma blob_reads_one_string:
  "read_zipmap B key expiry f = (evs, Inr f') \<Longrightarrow> \<exists>v. read_string f = Inr (v, f')"
  "read_ziplist key expiry f = (evs, Inr f') \<Longrightarrow> \<exists>v. read_string f = Inr (v, f')"
  "read_intset key expiry f = (evs, Inr f') \<Longrightarrow> \<exists>v. read_string f = Inr (v, f')"
  "read_zset_from_ziplist B key expiry f = (evs, Inr f') \<Longrightarrow> \<exists>v. read_string f = Inr (v, f')"
  "read_hash_from_ziplist key expiry f = (evs, Inr f') \<Longrightarrow> \<exists>v. read_string f = Inr (v, f')"
  by (auto simp: read_zipmap_def read_ziplist_def read_intset_def read_zset_from_ziplist_def
      read_hash_from_ziplist_def ebind_Inr lift_Inr emit_Inr blob_case_Inr Let_def
      split: if_splits)

lemma nat_twice: "nat (n * 2) = 2 * nat n"
  by (cases "0 \<le> n") (simp_all add: nat_mult_distrib)

lemma skip_object_follows_read_object:
  assumes "read_object B key expiry t f = (evs, Inr f')" and "t \<noteq> REDIS_RDB_TYPE_ZSET"
  shows "skip_object f t = Inr f'"
proof -
  consider "t = 0" | "t = 1" | "t = 2" | "t = 4" | "t = 9" | "t = 10" | "t = 11" | "t = 12"
    | "t = 13" | "t \<notin> {0, 1, 2, 3, 4, 9, 10, 11, 12, 13}"
    using assms(2) by (auto simp: REDIS_RDB_TYPE_ZSET_def)
  then show ?thesis
  proof cases
    case 1
    with assms(1) show ?thesis
      by (auto simp: read_object_def skip_object_def type_tags ebind_Inr lift_Inr and_then_def
          dest!: read_string_then_skip)
  next
    case 2
    with assms(1) show ?thesis
      by (auto simp: read_object_def skip_object_def type_tags ebind_Inr lift_Inr emit_Inr
          and_then_def dest!: for_range_one_string_skip)
  next
    case 3
    with assms(1) show ?thesis
      by (auto simp: read_object_def skip_object_def type_tags ebind_Inr lift_Inr emit_Inr
          and_then_def dest!: for_range_one_string_skip)
  next
    case 4
    with assms(1) show ?thesis
      by (auto simp: read_object_def skip_object_def type_tags ebind_Inr lift_Inr emit_Inr
          and_then_def nat_twice dest!: for_range_two_strings_skip)
  next
    case 5
    with assms(1) show ?thesis
      by (auto simp: read_object_def skip_object_def type_tags and_then_def
          dest!: blob_reads_one_string read_string_then_skip)
  next
    case 6
    with assms(1) show ?thesis
      by (auto simp: read_object_def skip_object_def type_tags and_then_def
          dest!: blob_reads_one_string read_string_then_skip)
  next
    case 7
    with assms(1) show ?thesis
      by (auto simp: read_object_def skip_object_def type_tags and_then_def
          dest!: blob_reads_one_string read_string_then_skip)
  next
    case 8
    with assms(1) show ?thesis
      by (auto simp: read_object_def skip_object_def type_tags and_then_def
          dest!: blob_reads_one_string read_string_then_skip)
  next
    case 9
    with assms(1) show ?thesis
      by (auto simp: read_object_def skip_object_def type_tags and_then_def
          dest!: blob_reads_one_string read_string_then_skip)
  next
    case 10
    with assms(1) show ?thesis
      by (auto simp: read_object_def type_tags)
  qed
qed

section \<open>The LZF decompressor, step by step\<close>

lemma py_index_in_range:
  "0 \<le> i \<Longrightarrow> i < int (length xs) \<Longrightarrow> py_index xs i = Inr (xs ! nat i)"
  by (simp add: py_index_def)

lemma lzf_literal_append:
  "length lits = n \<Longrightarrow> lzf_literal n (lits @ rest) out = Inr (rest, out @ lits)"
proof (induction n arbitrary: lits out)
  case 0
  then show ?case by simp
next
  case (Suc n)
  then obtain b lits' where l: "lits = b # lits'" "length lits' = n"
    by (cases lits) auto
  then show ?case using Suc.IH [of lits' "out @ [b]"] by simp
qed

lemma lzf_backref_copy:
  assumes "0 \<le> ref" "ref < int (length out)"
  shows "\<exists>out'. lzf_backref n ref out = Inr out' \<and> length out' = length out + n \<and>
           take (length out) out' = out \<and>
           (\<forall>i<n. out' ! (length out + i) = out' ! (nat ref + i))"
  using assms
proof (induction n arbitrary: ref out)
  case 0
  then show ?case by simp
next
  case (Suc n)
  let ?b = "out ! nat ref"
  have idx: "py_index out ref = Inr ?b"
    using Suc.prems by (rule py_index_in_range)
  have "0 \<le> ref + 1" "ref + 1 < int (length (out @ [?b]))"
    using Suc.prems by simp_all
  from Suc.IH [OF this] obtain out' where
    r: "lzf_backref n (ref + 1) (out @ [?b]) = Inr out'"
    and len: "length out' = length (out @ [?b]) + n"
    and pre: "take (length (out @ [?b])) out' = out @ [?b]"
    and cp: "\<forall>i<n. out' ! (length (out @ [?b]) + i) = out' ! (nat (ref + 1) + i)"
    by blast
  have pre': "take (length out) out' = out"
  proof -
    have "take (length out) out' = take (length out) (take (length (out @ [?b])) out')"
      by simp
    also have "\<dots> = out" unfolding pre by simp
    finally show ?thesis .
  qed
  have at: "out' ! length out = ?b"
  proof -
    have "out' ! length out = take (length (out @ [?b])) out' ! length out" by simp
    also have "\<dots> = ?b" unfolding pre by simp
    finally show ?thesis .
  qed
  have low: "out' ! nat ref = ?b"
  proof -
    have "nat ref < length out" using Suc.prems by simp
    then have "out' ! nat ref = take (length out) out' ! nat ref" by simp
    then show ?thesis unfolding pre' .
  qed
  have nr: "nat (ref + 1) = Suc (nat ref)" using Suc.prems by simp
  have "\<forall>i<Suc n. out' ! (length out + i) = out' ! (nat ref + i)"
  proof (intro allI impI)
    fix i assume "i < Suc n"
    show "out' ! (length out + i) = out' ! (nat ref + i)"
    proof (cases i)
      case 0
      then show ?thesis using at low by simp
    next
      case (Suc j)
      with \<open>i < Suc n\<close> have "j < n" by simp
      with cp have "out' ! (length (out @ [?b]) + j) = out' ! (nat (ref + 1) + j)" by blast
      then show ?thesis using Suc nr by simp
    qed
  qed
  with r len pre' idx show ?case by (auto simp: and_then_def)
qed


lemma lzf_loop_literal:
  assumes "uint c < 32" "length lits = nat (uint c + 1)"
  shows "lzf_loop (c # lits @ rest) out = lzf_loop rest (out @ lits)"
  using assms by (simp add: Let_def lzf_literal_append)

lemma lzf_loop_backref:
  assumes "32 \<le> uint c" "uint c div 32 \<noteq> 7"
    and "ref = int (length out) - (uint c mod 32) * 256 - uint b2 - 1" "0 \<le> ref"
  shows "\<exists>out'. lzf_loop (c # b2 # rest) out = lzf_loop rest out' \<and>
           length out' = length out + nat (uint c div 32 + 2) \<and>
           take (length out) out' = out \<and>
           (\<forall>i<nat (uint c div 32 + 2). out' ! (length out + i) = out' ! (nat ref + i))"
proof -
  have "0 \<le> uint c mod 32" "0 \<le> uint b2" by simp_all
  then have lt: "ref < int (length out)" using assms(3) by linarith
  from lzf_backref_copy [OF assms(4) lt, of "nat (uint c div 32 + 2)"]
  obtain out' where
    "lzf_backref (nat (uint c div 32 + 2)) ref out = Inr out'"
    "length out' = length out + nat (uint c div 32 + 2)"
    "take (length out) out' = out"
    "\<forall>i<nat (uint c div 32 + 2). out' ! (length out + i) = out' ! (nat ref + i)"
    by blast
  then show ?thesis
    using assms(1,2,3)
    by (intro exI [of _ out'])
       (simp add: Let_def drop_bit_eq_div and_low5 push_bit_eq_mult)
qed

lemma lzf_loop_backref_long:
  assumes "uint c div 32 = 7"
    and "ref = int (length out) - (uint c mod 32) * 256 - uint b2 - 1" "0 \<le> ref"
  shows "\<exists>out'. lzf_loop (c # x # b2 # rest) out = lzf_loop rest out' \<and>
           length out' = length out + nat (7 + uint x + 2) \<and>
           take (length out) out' = out \<and>
           (\<forall>i<nat (7 + uint x + 2). out' ! (length out + i) = out' ! (nat ref + i))"
proof -
  have c: "\<not> uint c < 32" using assms(1) by (cases "uint c < 32") simp_all
  have "0 \<le> uint c mod 32" "0 \<le> uint b2" by simp_all
  then have lt: "ref < int (length out)" using assms(2) by linarith
  from lzf_backref_copy [OF assms(3) lt, of "nat (7 + uint x + 2)"]
  obtain out' where
    "lzf_backref (nat (7 + uint x + 2)) ref out = Inr out'"
    "length out' = length out + nat (7 + uint x + 2)"
    "take (length out) out' = out"
    "\<forall>i<nat (7 + uint x + 2). out' ! (length out + i) = out' ! (nat ref + i)"
    by blast
  then show ?thesis
    using assms(1,2) c
    by (intro exI [of _ out'])
       (simp add: Let_def drop_bit_eq_div and_low5 push_bit_eq_mult)
qed

text \<open>
  Claim C6.  The loop ends when the input is used up.  A control byte \<open>c\<close> below 32
  copies the next \<open>c + 1\<close> input bytes to the output.  Any other control byte is a
  back-reference to the output offset
  \<open>ref = length out - (c mod 32) * 256 - b2 - 1\<close>, of length \<open>len + 2\<close>, where \<open>len\<close> is
  \<open>c div 32\<close> and, when that is 7, one more input byte \<open>x\<close> is added to it.  For an
  offset that is not negative, the new output \<open>out'\<close> keeps \<open>out\<close> and its byte at
  \<open>length out + i\<close> is its own byte at \<open>ref + i\<close> for every \<open>i < len + 2\<close>, which is
  the byte-by-byte copy where source and destination overlap.  \<^verbatim>\<open>lzf_decompress\<close>
  returns the output of the loop when its length is the expected length, and fails with
  \<open>LzfLengthMismatch\<close> when it is not.
\<close>

theorem lzf_decompress_standard:
  "lzf_loop [] out = Inr out \<and>
   (uint c < 32 \<longrightarrow> length lits = nat (uint c + 1) \<longrightarrow>
      lzf_loop (c # lits @ rest) out = lzf_loop rest (out @ lits)) \<and>
   (32 \<le> uint c \<longrightarrow> 0 \<le> ref \<longrightarrow>
    ref = int (length out) - (uint c mod 32) * 256 - uint b2 - 1 \<longrightarrow>
    len = (if uint c div 32 = 7 then 7 + uint x else uint c div 32) \<longrightarrow>
    ins = (if uint c div 32 = 7 then c # x # b2 # rest else c # b2 # rest) \<longrightarrow>
      (\<exists>out'. lzf_loop ins out = lzf_loop rest out' \<and>
         length out' = length out + nat (len + 2) \<and>
         take (length out) out' = out \<and>
         (\<forall>i<nat (len + 2). out' ! (length out + i) = out' ! (nat ref + i)))) \<and>
   (lzf_decompress compressed u = Inr res \<longrightarrow>
      lzf_loop compressed [] = Inr res \<and> int (length res) = u) \<and>
   (lzf_loop compressed [] = Inr res \<longrightarrow> int (length res) \<noteq> u \<longrightarrow>
      lzf_decompress compressed u = Inl LzfLengthMismatch)"
proof (intro conjI impI)
  show "lzf_loop [] out = Inr out" by simp
next
  assume "uint c < 32" "length lits = nat (uint c + 1)"
  then show "lzf_loop (c # lits @ rest) out = lzf_loop rest (out @ lits)"
    by (rule lzf_loop_literal)
next
  assume a: "32 \<le> uint c" "0 \<le> ref"
    "ref = int (length out) - (uint c mod 32) * 256 - uint b2 - 1"
    "len = (if uint c div 32 = 7 then 7 + uint x else uint c div 32)"
    "ins = (if uint c div 32 = 7 then c # x # b2 # rest else c # b2 # rest)"
  show "\<exists>out'. lzf_loop ins out = lzf_loop rest out' \<and>
         length out' = length out + nat (len + 2) \<and>
         take (length out) out' = out \<and>
         (\<forall>i<nat (len + 2). out' ! (length out + i) = out' ! (nat ref + i))"
  proof (cases "uint c div 32 = 7")
    case True
    then show ?thesis
      using lzf_loop_backref_long [OF True a(3) a(2), of x rest] a(4,5) by simp
  next
    case False
    then show ?thesis
      using lzf_loop_backref [OF a(1) False a(3) a(2), of rest] a(4,5) by simp
  qed
next
  assume "lzf_decompress compressed u = Inr res"
  then show "lzf_loop compressed [] = Inr res"
    by (auto simp: lzf_decompress_def and_then_def split: sum.splits if_splits)
next
  assume "lzf_decompress compressed u = Inr res"
  then show "int (length res) = u"
    by (auto simp: lzf_decompress_def and_then_def split: sum.splits if_splits)
next
  assume "lzf_loop compressed [] = Inr res" "int (length res) \<noteq> u"
  then show "lzf_decompress compressed u = Inl LzfLengthMismatch"
    by (simp add: lzf_decompress_def and_then_def)
qed

theorem lzf_decompress_standard_witness:
  "lzf_loop [0x02, 0x41, 0x42, 0x43] [] = Inr [0x41, 0x42, 0x43] \<and>
   (\<exists>out'. lzf_loop [0x20, 0x00] [0x41] = Inr out' \<and> length out' = 4 \<and>
      take 1 out' = [0x41] \<and> (\<forall>i<3. out' ! (1 + i) = out' ! i)) \<and>
   lzf_decompress [0x00, 0x41, 0x20, 0x00] 4 = Inr [0x41, 0x41, 0x41, 0x41] \<and>
   lzf_decompress [0x00, 0x41, 0x20, 0x00] 5 = Inl LzfLengthMismatch"
proof -
  have d: "lzf_decompress [0x00, 0x41, 0x20, 0x00] 4 = Inr [0x41, 0x41, 0x41, 0x41]"
    by code_simp
  have 1: "lzf_loop [0x02, 0x41, 0x42, 0x43] [] = Inr [0x41, 0x42, 0x43]"
    using lzf_decompress_standard [of "[]" "0x02" "[0x41, 0x42, 0x43]" "[]"] by simp
  have 2: "\<exists>out'. lzf_loop [0x20, 0x00] [0x41] = Inr out' \<and> length out' = 4 \<and>
      take 1 out' = [0x41] \<and> (\<forall>i<3. out' ! (1 + i) = out' ! i)"
    using lzf_decompress_standard [of "[0x41]" "0x20" _ "[]" 0 "0x00" 1 _ "[0x20, 0x00]"]
    by simp
  have 3: "lzf_decompress [0x00, 0x41, 0x20, 0x00] 5 = Inl LzfLengthMismatch"
    using lzf_decompress_standard [of _ _ _ _ _ _ _ _ _ "[0x00, 0x41, 0x20, 0x00]" 4
        "[0x41, 0x41, 0x41, 0x41]"]
      lzf_decompress_standard [of _ _ _ _ _ _ _ _ _ "[0x00, 0x41, 0x20, 0x00]" 5
        "[0x41, 0x41, 0x41, 0x41]"] d
    by simp
  from 1 2 d 3 show ?thesis by blast
qed

section \<open>Fixed-width reads from a stream with bytes left\<close>

lemma read_signed_char_Cons: "read_signed_char (a # f) = Inr (to_signed 8 (uint a), f)"
  by (simp add: read_signed_char_def read_signed_def f_read_def unpack_signed_def and_then_def)

lemma read_signed_short_Cons:
  "read_signed_short (a # b # f) = Inr (to_signed 16 (le_int [a, b]), f)"
  by (simp add: read_signed_short_def read_signed_def f_read_def unpack_signed_def
      and_then_def)

lemma read_signed_int_Cons:
  "read_signed_int (a # b # c # d # f) = Inr (to_signed 32 (le_int [a, b, c, d]), f)"
  by (simp add: read_signed_int_def read_signed_def f_read_def unpack_signed_def and_then_def)

lemma read_signed_long_Cons:
  "read_signed_long (a # b # c # d # e # g # h # i # f)
     = Inr (to_signed 64 (le_int [a, b, c, d, e, g, h, i]), f)"
  by (simp add: read_signed_long_def read_signed_def f_read_def unpack_signed_def
      and_then_def)

lemma read_unsigned_int_Cons:
  "read_unsigned_int (a # b # c # d # f) = Inr (le_int [a, b, c, d], f)"
  by (simp add: read_unsigned_int_def read_unsigned_def f_read_def unpack_unsigned_def
      and_then_def)

lemma read_unsigned_long_Cons:
  "read_unsigned_long (a # b # c # d # e # g # h # i # f)
     = Inr (le_int [a, b, c, d, e, g, h, i], f)"
  by (simp add: read_unsigned_long_def read_unsigned_def f_read_def unpack_unsigned_def
      and_then_def)

lemma read_big_endian_unsigned_int_Cons:
  "read_big_endian_unsigned_int (a3 # a2 # a1 # a0 # f)
     = Inr (uint a3 * 2 ^ 24 + uint a2 * 2 ^ 16 + uint a1 * 2 ^ 8 + uint a0, f)"
  by (simp add: read_big_endian_unsigned_int_def f_read_def)

lemma le_int_bounds3: "0 \<le> le_int [a, b, c]" "le_int [a, b, c] < 2 ^ 24"
proof -
  have "uint a < 256" "uint b < 256" "uint c < 256"
    using uint_lt2p [of a] uint_lt2p [of b] uint_lt2p [of c] by simp_all
  then show "le_int [a, b, c] < 2 ^ 24" by simp
  show "0 \<le> le_int [a, b, c]" by simp
qed

text \<open>The 24-bit read: the byte \<^verbatim>\<open>'0'\<close> put in front is shifted out again.\<close>

lemma signed24_shift:
  assumes "0 \<le> v" "v < 2 ^ 24"
  shows "drop_bit 8 (to_signed 32 (48 + 256 * v)) = to_signed 24 (v::int)"
proof (cases "v < 2 ^ 23")
  case True
  then have "48 + 256 * v < 2 ^ 31" by simp
  then have "to_signed 32 (48 + 256 * v) = 48 + 256 * v" by (simp add: to_signed_def)
  moreover have "(48 + 256 * v) div 256 = v" by simp
  ultimately show ?thesis using True by (simp add: drop_bit_eq_div to_signed_def)
next
  case False
  then have "\<not> 48 + 256 * v < 2 ^ 31" by simp
  then have "to_signed 32 (48 + 256 * v) = 48 + 256 * (v - 2 ^ 24)"
    by (simp add: to_signed_def)
  moreover have "(48 + 256 * (v - 2 ^ 24)) div 256 = v - 2 ^ 24"
    by (rule split_high) simp_all
  ultimately show ?thesis using False by (simp add: drop_bit_eq_div to_signed_def)
qed

lemma read_24bit_signed_number_Cons:
  "read_24bit_signed_number (a # b # c # f) = Inr (to_signed 24 (le_int [a, b, c]), f)"
proof -
  have "le_int [48, a, b, c] = 48 + 256 * le_int [a, b, c]" by simp
  then show ?thesis
    using signed24_shift [OF le_int_bounds3, of a b c]
    by (simp add: read_24bit_signed_number_def f_read_def unpack_signed_def and_then_def
        del: le_int.simps)
qed

section \<open>The headers of a ziplist entry\<close>

lemma read_ziplist_entry_Cons:
  assumes "uint p \<noteq> 254"
  shows "read_ziplist_entry (p # h # f3) =
     (if uint h div 64 = 0 then
        Inr (VStr (take (nat (uint h mod 64)) f3), drop (nat (uint h mod 64)) f3)
      else if uint h div 64 = 1 then
        and_then (read_unsigned_char f3) (\<lambda>(b, f4).
          Inr (VStr (take (nat (push_bit 8 (uint h mod 64) OR b)) f4),
               drop (nat (push_bit 8 (uint h mod 64) OR b)) f4))
      else if uint h div 64 = 2 then
        and_then (read_big_endian_unsigned_int f3) (\<lambda>(len, f4).
          Inr (VStr (take (nat len) f4), drop (nat len) f4))
      else if uint h div 16 = 12 then
        and_then (read_signed_short f3) (\<lambda>(v, f4). Inr (VInt v, f4))
      else if uint h div 16 = 13 then
        and_then (read_signed_int f3) (\<lambda>(v, f4). Inr (VInt v, f4))
      else if uint h div 16 = 14 then
        and_then (read_signed_long f3) (\<lambda>(v, f4). Inr (VInt v, f4))
      else if uint h = 240 then
        and_then (read_24bit_signed_number f3) (\<lambda>(v, f4). Inr (VInt v, f4))
      else if uint h = 254 then
        and_then (read_signed_char f3) (\<lambda>(v, f4). Inr (VInt v, f4))
      else if 241 \<le> uint h \<and> uint h \<le> 253 then Inr (VInt (uint h - 241), f3)
      else Inl BadZiplistEntry)"
  using assms
  by (simp add: read_ziplist_entry_def read_unsigned_char_Cons and_then_def Let_def
      drop_bit_eq_div and_low6 f_read_def)

lemma read_ziplist_entry_long_prev:
  "read_ziplist_entry (254 # q0 # q1 # q2 # q3 # h # rest) = read_ziplist_entry (0 # h # rest)"
  by (simp add: read_ziplist_entry_def read_unsigned_char_Cons read_unsigned_int_Cons
      and_then_def del: le_int.simps)

lemma nibble_tag: "uint (h::byte) div 64 = uint h div 16 div 4"
  by (simp add: zdiv_zmult2_eq)

lemma fixed_read_not_bad:
  "and_then (read_signed n f) (\<lambda>(v, f4). Inr (g v f4)) \<noteq> Inl BadZiplistEntry"
  "and_then (read_unsigned n f) (\<lambda>(v, f4). Inr (g' v f4)) \<noteq> Inl BadZiplistEntry"
  "and_then (read_big_endian_unsigned_int f) (\<lambda>(v, f4). Inr (g' v f4)) \<noteq> Inl BadZiplistEntry"
  "and_then (read_24bit_signed_number f) (\<lambda>(v, f4). Inr (g v f4)) \<noteq> Inl BadZiplistEntry"
  by (simp_all add: read_signed_def read_unsigned_def read_big_endian_unsigned_int_def
      read_24bit_signed_number_def unpack_signed_def unpack_unsigned_def f_read_def
      and_then_def)

lemma byte_255: "uint (h::byte) = 255 \<longleftrightarrow> h = 0xFF"
proof
  assume "uint h = 255"
  then have "uint h = uint (0xFF::byte)" by simp
  then show "h = 0xFF" by (simp only: word_uint_eq_iff)
next
  assume "h = 0xFF"
  then show "uint h = 255" by simp
qed

text \<open>A byte has 256 values: the facts about the header ranges are checked on each.\<close>

lemma header_enum:
  "list_all (\<lambda>x::int. x div 64 \<noteq> 0 \<and> x div 64 \<noteq> 1 \<and> x div 64 \<noteq> 2 \<and>
      x div 16 \<noteq> 12 \<and> x div 16 \<noteq> 13 \<and> x div 16 \<noteq> 14 \<and>
      x \<noteq> 240 \<and> x \<noteq> 254 \<and> \<not> (241 \<le> x \<and> x \<le> 253) \<longrightarrow> x = 255) [0..255]"
  by code_simp

lemma header_ranges:
  fixes h :: byte
  assumes "uint h div 64 \<noteq> 0" "uint h div 64 \<noteq> 1" "uint h div 64 \<noteq> 2"
    "uint h div 16 \<noteq> 12" "uint h div 16 \<noteq> 13" "uint h div 16 \<noteq> 14"
    "uint h \<noteq> 240" "uint h \<noteq> 254" "\<not> (241 \<le> uint h \<and> uint h \<le> 253)"
  shows "uint h = 255"
proof -
  have "uint h \<in> set [0..255]" using uint_lt2p [of h] by simp
  with header_enum assms show ?thesis
    unfolding list_all_iff by blast
qed

lemma immediate_enum:
  "list_all (\<lambda>x::int. 241 \<le> x \<and> x \<le> 253 \<longrightarrow> x div 64 = 3 \<and> x div 16 = 15) [0..255]"
  by code_simp

lemma immediate_tag:
  fixes h :: byte
  assumes "241 \<le> uint h" "uint h \<le> 253"
  shows "uint h div 64 = 3" "uint h div 16 = 15"
proof -
  have "uint h \<in> set [0..255]" using uint_lt2p [of h] by simp
  with immediate_enum assms show "uint h div 64 = 3" "uint h div 16 = 15"
    unfolding list_all_iff by blast+
qed

lemma read_ziplist_entry_bad_iff:
  assumes "uint p \<noteq> 254"
  shows "read_ziplist_entry (p # h # rest) = Inl BadZiplistEntry \<longleftrightarrow> h = 0xFF"
proof
  assume "h = 0xFF"
  then show "read_ziplist_entry (p # h # rest) = Inl BadZiplistEntry"
    by (simp add: read_ziplist_entry_Cons [OF assms])
next
  assume bad: "read_ziplist_entry (p # h # rest) = Inl BadZiplistEntry"
  have "read_ziplist_entry (p # h # rest) \<noteq> Inl BadZiplistEntry" if "uint h \<noteq> 255"
    unfolding read_ziplist_entry_Cons [OF assms]
    using that header_ranges [of h]
    by (simp add: fixed_read_not_bad read_signed_short_def read_signed_int_def
        read_signed_long_def read_signed_char_def read_unsigned_char_def) blast
  with bad have "uint h = 255" by blast
  then show "h = 0xFF" by (simp only: byte_255)
qed

text \<open>
  Claim C4, as the code has it.  After a one-byte previous-entry length \<open>p\<close>, the header
  \<open>h\<close> selects the payload.  The three string encodings go by the two top bits.  The
  16-, 32- and 64-bit integers go by the high nibble alone: every header \<^verbatim>\<open>1100xxxx\<close> is
  a signed 16-bit integer, every \<^verbatim>\<open>1101xxxx\<close> a signed 32-bit integer, every
  \<^verbatim>\<open>1110xxxx\<close> a signed 64-bit integer.  \<^verbatim>\<open>0xF0\<close> is the 24-bit integer, \<^verbatim>\<open>0xFE\<close> the 8-bit
  integer, 241 to 253 the immediate values 0 to 12.  The only header that fails with
  \<open>BadZiplistEntry\<close> is \<^verbatim>\<open>0xFF\<close>.  A five-byte previous-entry length (first byte 254)
  is skipped and changes nothing else.
\<close>

theorem read_ziplist_entry_headers:
  assumes "uint p \<noteq> 254"
  shows
  "(uint h div 64 = 0 \<longrightarrow>
      read_ziplist_entry (p # h # rest)
        = Inr (VStr (take (nat (uint h mod 64)) rest), drop (nat (uint h mod 64)) rest)) \<and>
   (uint h div 64 = 1 \<longrightarrow>
      read_ziplist_entry (p # h # b2 # rest)
        = Inr (VStr (take (nat ((uint h mod 64) * 256 + uint b2)) rest),
               drop (nat ((uint h mod 64) * 256 + uint b2)) rest)) \<and>
   (uint h div 64 = 2 \<longrightarrow>
      read_ziplist_entry (p # h # a3 # a2 # a1 # a0 # rest)
        = Inr (VStr (take (nat (uint a3 * 2 ^ 24 + uint a2 * 2 ^ 16 + uint a1 * 2 ^ 8
                               + uint a0)) rest),
               drop (nat (uint a3 * 2 ^ 24 + uint a2 * 2 ^ 16 + uint a1 * 2 ^ 8
                          + uint a0)) rest)) \<and>
   (uint h div 16 = 12 \<longrightarrow>
      read_ziplist_entry (p # h # a0 # a1 # rest)
        = Inr (VInt (to_signed 16 (le_int [a0, a1])), rest)) \<and>
   (uint h div 16 = 13 \<longrightarrow>
      read_ziplist_entry (p # h # a0 # a1 # a2 # a3 # rest)
        = Inr (VInt (to_signed 32 (le_int [a0, a1, a2, a3])), rest)) \<and>
   (uint h div 16 = 14 \<longrightarrow>
      read_ziplist_entry (p # h # a0 # a1 # a2 # a3 # a4 # a5 # a6 # a7 # rest)
        = Inr (VInt (to_signed 64 (le_int [a0, a1, a2, a3, a4, a5, a6, a7])), rest)) \<and>
   (h = 0xF0 \<longrightarrow>
      read_ziplist_entry (p # h # a0 # a1 # a2 # rest)
        = Inr (VInt (to_signed 24 (le_int [a0, a1, a2])), rest)) \<and>
   (h = 0xFE \<longrightarrow>
      read_ziplist_entry (p # h # a0 # rest) = Inr (VInt (to_signed 8 (uint a0)), rest)) \<and>
   (241 \<le> uint h \<and> uint h \<le> 253 \<longrightarrow>
      read_ziplist_entry (p # h # rest) = Inr (VInt (uint h - 241), rest)) \<and>
   (read_ziplist_entry (p # h # rest) = Inl BadZiplistEntry \<longleftrightarrow> h = 0xFF) \<and>
   read_ziplist_entry (254 # q0 # q1 # q2 # q3 # h # rest) = read_ziplist_entry (0 # h # rest)"
proof (intro conjI impI)
  assume "uint h div 64 = 0"
  then show "read_ziplist_entry (p # h # rest)
        = Inr (VStr (take (nat (uint h mod 64)) rest), drop (nat (uint h mod 64)) rest)"
    by (simp add: read_ziplist_entry_Cons [OF assms])
next
  have b2: "0 \<le> uint b2" "uint b2 < 256" using uint_lt2p [of b2] by simp_all
  assume "uint h div 64 = 1"
  then show "read_ziplist_entry (p # h # b2 # rest)
        = Inr (VStr (take (nat ((uint h mod 64) * 256 + uint b2)) rest),
               drop (nat ((uint h mod 64) * 256 + uint b2)) rest)"
    by (simp add: read_ziplist_entry_Cons [OF assms] read_unsigned_char_Cons and_then_def
        shift8_or [OF b2])
next
  assume "uint h div 64 = 2"
  then show "read_ziplist_entry (p # h # a3 # a2 # a1 # a0 # rest)
        = Inr (VStr (take (nat (uint a3 * 2 ^ 24 + uint a2 * 2 ^ 16 + uint a1 * 2 ^ 8
                               + uint a0)) rest),
               drop (nat (uint a3 * 2 ^ 24 + uint a2 * 2 ^ 16 + uint a1 * 2 ^ 8
                          + uint a0)) rest)"
    by (simp add: read_ziplist_entry_Cons [OF assms] read_big_endian_unsigned_int_Cons
        and_then_def)
next
  assume "uint h div 16 = 12"
  then show "read_ziplist_entry (p # h # a0 # a1 # rest)
        = Inr (VInt (to_signed 16 (le_int [a0, a1])), rest)"
    by (simp add: read_ziplist_entry_Cons [OF assms] nibble_tag read_signed_short_Cons
        and_then_def del: le_int.simps)
next
  assume "uint h div 16 = 13"
  then show "read_ziplist_entry (p # h # a0 # a1 # a2 # a3 # rest)
        = Inr (VInt (to_signed 32 (le_int [a0, a1, a2, a3])), rest)"
    by (simp add: read_ziplist_entry_Cons [OF assms] nibble_tag read_signed_int_Cons
        and_then_def del: le_int.simps)
next
  assume "uint h div 16 = 14"
  then show "read_ziplist_entry (p # h # a0 # a1 # a2 # a3 # a4 # a5 # a6 # a7 # rest)
        = Inr (VInt (to_signed 64 (le_int [a0, a1, a2, a3, a4, a5, a6, a7])), rest)"
    by (simp add: read_ziplist_entry_Cons [OF assms] nibble_tag read_signed_long_Cons
        and_then_def del: le_int.simps)
next
  assume "h = 0xF0"
  then show "read_ziplist_entry (p # h # a0 # a1 # a2 # rest)
        = Inr (VInt (to_signed 24 (le_int [a0, a1, a2])), rest)"
    by (simp add: read_ziplist_entry_Cons [OF assms] read_24bit_signed_number_Cons
        and_then_def del: le_int.simps)
next
  assume "h = 0xFE"
  then show "read_ziplist_entry (p # h # a0 # rest) = Inr (VInt (to_signed 8 (uint a0)), rest)"
    by (simp add: read_ziplist_entry_Cons [OF assms] read_signed_char_Cons and_then_def)
next
  assume r: "241 \<le> uint h \<and> uint h \<le> 253"
  then have "uint h div 64 = 3" "uint h div 16 = 15" "uint h \<noteq> 240" "uint h \<noteq> 254"
    using immediate_tag [of h] by simp_all
  with r show "read_ziplist_entry (p # h # rest) = Inr (VInt (uint h - 241), rest)"
    by (simp add: read_ziplist_entry_Cons [OF assms])
next
  show "read_ziplist_entry (p # h # rest) = Inl BadZiplistEntry \<longleftrightarrow> h = 0xFF"
    using assms by (rule read_ziplist_entry_bad_iff)
next
  show "read_ziplist_entry (254 # q0 # q1 # q2 # q3 # h # rest)
          = read_ziplist_entry (0 # h # rest)"
    by (rule read_ziplist_entry_long_prev)
qed

theorem read_ziplist_entry_headers_witness:
  "read_ziplist_entry [0x00, 0xCF, 0xFE, 0xFF, 0x99] = Inr (VInt (- 2), [0x99]) \<and>
   read_ziplist_entry [0x00, 0xD7, 0x01, 0x00, 0x00, 0x00, 0x99] = Inr (VInt 1, [0x99]) \<and>
   read_ziplist_entry [0x00, 0xE1, 0x05, 0x00, 0x00, 0x00, 0x00, 0x00, 0x00, 0x00, 0x99]
     = Inr (VInt 5, [0x99]) \<and>
   read_ziplist_entry [0x00, 0x02, 0x68, 0x69, 0x99] = Inr (VStr [0x68, 0x69], [0x99]) \<and>
   read_ziplist_entry [0x00, 0xF3, 0x99] = Inr (VInt 2, [0x99]) \<and>
   read_ziplist_entry [0x00, 0xFF, 0x99] = Inl BadZiplistEntry"
  using
    read_ziplist_entry_headers [where p = "0x00" and h = "0xCF" and rest = "[0x99]"
      and ?a0.0 = "0xFE" and ?a1.0 = "0xFF"]
    read_ziplist_entry_headers [where p = "0x00" and h = "0xD7" and rest = "[0x99]"
      and ?a0.0 = "0x01" and ?a1.0 = "0x00" and ?a2.0 = "0x00" and ?a3.0 = "0x00"]
    read_ziplist_entry_headers [where p = "0x00" and h = "0xE1" and rest = "[0x99]"
      and ?a0.0 = "0x05" and ?a1.0 = "0x00" and ?a2.0 = "0x00" and ?a3.0 = "0x00"
      and ?a4.0 = "0x00" and ?a5.0 = "0x00" and ?a6.0 = "0x00" and ?a7.0 = "0x00"]
    read_ziplist_entry_headers [where p = "0x00" and h = "0x02" and rest = "[0x68, 0x69, 0x99]"]
    read_ziplist_entry_headers [where p = "0x00" and h = "0xF3" and rest = "[0x99]"]
    read_ziplist_entry_headers [where p = "0x00" and h = "0xFF" and rest = "[0x99]"]
  by (simp add: to_signed_def)

text \<open>
  The claim as the specification states it fails at the header \<^verbatim>\<open>0xC1\<close>: the entry
  \<^verbatim>\<open>00 C1 34 12\<close> is decoded as the 16-bit integer \<^verbatim>\<open>0x1234\<close>.
\<close>

theorem read_ziplist_entry_accepts_C1:
  "read_ziplist_entry [0x00, 0xC1, 0x34, 0x12] = Inr (VInt 4660, [])"
  by code_simp

section \<open>Which records are decoded\<close>

lemma ebind_lift_Inr: "ebind (lift (Inr x)) k = k x"
  by (simp add: ebind_def lift_def split: prod.splits)

lemma ebind_lift_Inl: "ebind (lift (Inl e)) k = ([], Inl e)"
  by (simp add: ebind_def lift_def)

lemma matches_filter_db:
  "matches_filter B flt db VNone None = Inr (db_allowed flt db)"
  by (auto simp: matches_filter_def db_allowed_def truthy_def split: option.splits)

lemma matches_filter_record:
  assumes "DATA_TYPE_MAPPING data_type \<noteq> None"
  shows "matches_filter B flt db key (Some data_type)
           = Inr (db_allowed flt db \<and> key_passes B flt key \<and> type_allowed flt data_type)"
  using assms
  by (auto simp: matches_filter_def db_allowed_def key_passes_def type_allowed_def
      get_logical_type_def and_then_def split: option.splits)

text \<open>
  Claim C8, as the code has it.  For a record whose key was read and whose type tag is
  one of the ten known tags: the record is decoded if and only if its database is
  allowed, its key passes (a key that Python takes for false, such as the empty
  string, passes without the regular expression; any other key passes when the
  expression matches it) and its logical type is allowed.  Otherwise it goes to the skip
  path: \<^verbatim>\<open>skip_object\<close> when the database is allowed, \<^verbatim>\<open>skip_key_and_object\<close> when it is
  not.
\<close>

theorem parse_record_decodes_iff:
  assumes "read_string f = Inr (key, f1)" and "DATA_TYPE_MAPPING data_type \<noteq> None"
  shows "parse_record B flt db expiry data_type f =
           (if db_allowed flt db \<and> key_passes B flt key \<and> type_allowed flt data_type
            then read_object B key expiry data_type f1
            else if db_allowed flt db then lift (skip_object f1 data_type)
            else lift (skip_key_and_object f data_type))"
  by (simp add: parse_record_def matches_filter_db matches_filter_record [OF assms(2)]
      assms(1) ebind_lift_Inr)

theorem parse_record_decodes_iff_witness:
  "parse_record example_builtins keys_a_strings 0 None 0 [0x01, 0x61, 0x01, 0x62]
     = ([Set_key (VStr [0x61]) (VStr [0x62]) None (Info ''string'' None)], Inr []) \<and>
   parse_record example_builtins keys_a_strings 0 None 0 [0x01, 0x63, 0x01, 0x62]
     = ([], Inr [])"
proof -
  have 1: "read_string [0x01, 0x61, 0x01, 0x62] = Inr (VStr [0x61], [0x01, 0x62])"
    and 2: "read_string [0x01, 0x63, 0x01, 0x62] = Inr (VStr [0x63], [0x01, 0x62])"
    and 3: "DATA_TYPE_MAPPING 0 \<noteq> None"
    by code_simp+
  have a: "db_allowed keys_a_strings 0" "type_allowed keys_a_strings 0"
    "key_passes example_builtins keys_a_strings (VStr [0x61])"
    "\<not> key_passes example_builtins keys_a_strings (VStr [0x63])"
    by code_simp+
  have r: "read_object example_builtins (VStr [0x61]) None 0 [0x01, 0x62]
      = ([Set_key (VStr [0x61]) (VStr [0x62]) None (Info ''string'' None)], Inr [])"
    "lift (skip_object [0x01, 0x62] 0) = (([], Inr []) :: bytes event list \<times> (error + bytes))"
    by code_simp+
  show ?thesis
    using parse_record_decodes_iff [OF 1 3, of example_builtins keys_a_strings 0 None]
      parse_record_decodes_iff [OF 2 3, of example_builtins keys_a_strings 0 None]
    by (simp add: a r)
qed

text \<open>
  The claim as the specification states it fails at the empty key: the expression
  \<^verbatim>\<open>a\<close> does not match the empty string, and the record is decoded all the same.
\<close>

theorem parse_record_empty_key_decoded:
  "\<not> literal_match [0x61] [] \<and>
   parse_record example_builtins keys_a_strings 0 None 0 [0x00, 0x01, 0x62]
     = ([Set_key (VStr []) (VStr [0x62]) None (Info ''string'' None)], Inr [])"
  by code_simp

section \<open>The empty key\<close>

text \<open>
  Claim C10.  A record whose key is the empty string: whatever the regular expression
  \<open>m\<close> of the filter is, the filter accepts the record and the record is decoded as
  soon as its database and its logical type are allowed.
\<close>

theorem empty_key_bypasses_regex:
  assumes "read_string f = Inr (VStr [], f1)"
    and "db_allowed flt db" and "type_allowed flt data_type"
  shows "matches_filter B (flt\<lparr>filters_keys := m\<rparr>) db (VStr []) (Some data_type) = Inr True \<and>
         parse_record B (flt\<lparr>filters_keys := m\<rparr>) db expiry data_type f
           = read_object B (VStr []) expiry data_type f1"
proof -
  have t: "DATA_TYPE_MAPPING data_type \<noteq> None"
    using assms(3) by (auto simp: type_allowed_def split: option.splits)
  have d: "db_allowed (flt\<lparr>filters_keys := m\<rparr>) db"
    using assms(2) by (simp add: db_allowed_def)
  have ty: "type_allowed (flt\<lparr>filters_keys := m\<rparr>) data_type"
    using assms(3) by (simp add: type_allowed_def split: option.splits)
  have k: "key_passes B (flt\<lparr>filters_keys := m\<rparr>) (VStr [])"
    by (simp add: key_passes_def truthy_def)
  show ?thesis
    by (simp add: parse_record_def matches_filter_db matches_filter_record [OF t] assms(1)
        ebind_lift_Inr d ty k)
qed

theorem empty_key_bypasses_regex_witness:
  "\<not> literal_match [0x61] [] \<and>
   matches_filter example_builtins (no_filter\<lparr>filters_keys := literal_match [0x61]\<rparr>) 0
     (VStr []) (Some 4) = Inr True \<and>
   parse_record example_builtins (no_filter\<lparr>filters_keys := literal_match [0x61]\<rparr>) 0 None 4
     [0x00, 0x01, 0x01, 0x66, 0x01, 0x76]
     = ([Start_hash (VStr []) 1 None (Info ''hashtable'' None),
         Hset (VStr []) (VStr [0x66]) (VStr [0x76]), End_hash (VStr [])], Inr [])"
proof -
  have 1: "read_string [0x00, 0x01, 0x01, 0x66, 0x01, 0x76]
             = Inr (VStr [], [0x01, 0x01, 0x66, 0x01, 0x76])"
    and 2: "db_allowed no_filter 0" and 3: "type_allowed no_filter 4"
    and 4: "\<not> literal_match [0x61] []"
    by code_simp+
  have r: "read_object example_builtins (VStr []) None 4 [0x01, 0x01, 0x66, 0x01, 0x76]
      = ([Start_hash (VStr []) 1 None (Info ''hashtable'' None),
         Hset (VStr []) (VStr [0x66]) (VStr [0x76]), End_hash (VStr [])], Inr [])"
    by code_simp
  show ?thesis
    using empty_key_bypasses_regex [OF 1 2 3, of example_builtins "literal_match [0x61]" None]
    by (simp add: 4 r)
qed

section \<open>An expiry opcode before SELECTDB\<close>

lemma parse_loop_selectdb:
  "parse_loop B flt is_first db (0xFE # rest) =
     ebind (if \<not> is_first then emit (End_database db) else ([], Inr ())) (\<lambda>_.
       case read_length rest of
         Inl e \<Rightarrow> ([], Inl e)
       | Inr (db', f3) \<Rightarrow>
           ebind (emit (Start_database db')) (\<lambda>_. parse_loop B flt False db' f3))"
  by (subst parse_loop.simps)
     (simp add: read_unsigned_char_Cons parse_expiry_def REDIS_RDB_OPCODE_EXPIRETIME_MS_def
       REDIS_RDB_OPCODE_EXPIRETIME_def REDIS_RDB_OPCODE_SELECTDB_def)

lemma parse_loop_expiry_selectdb:
  "parse_loop B flt is_first db (0xFD # t0 # t1 # t2 # t3 # 0xFE # rest) =
     ebind (if \<not> is_first then emit (End_database db) else ([], Inr ())) (\<lambda>_.
       case read_length rest of
         Inl e \<Rightarrow> ([], Inl e)
       | Inr (db', f3) \<Rightarrow>
           ebind (emit (Start_database db')) (\<lambda>_. parse_loop B flt False db' f3))"
  by (subst parse_loop.simps)
     (simp add: read_unsigned_char_Cons read_unsigned_int_Cons parse_expiry_def and_then_def
       REDIS_RDB_OPCODE_EXPIRETIME_MS_def REDIS_RDB_OPCODE_EXPIRETIME_def
       REDIS_RDB_OPCODE_SELECTDB_def del: le_int.simps)

lemma parse_loop_expiry_ms_selectdb:
  "parse_loop B flt is_first db
       (0xFC # t0 # t1 # t2 # t3 # t4 # t5 # t6 # t7 # 0xFE # rest) =
     ebind (if \<not> is_first then emit (End_database db) else ([], Inr ())) (\<lambda>_.
       case read_length rest of
         Inl e \<Rightarrow> ([], Inl e)
       | Inr (db', f3) \<Rightarrow>
           ebind (emit (Start_database db')) (\<lambda>_. parse_loop B flt False db' f3))"
  by (subst parse_loop.simps)
     (simp add: read_unsigned_char_Cons read_unsigned_long_Cons parse_expiry_def and_then_def
       REDIS_RDB_OPCODE_EXPIRETIME_MS_def REDIS_RDB_OPCODE_EXPIRETIME_def
       REDIS_RDB_OPCODE_SELECTDB_def del: le_int.simps)

text \<open>
  Claim C9, as the code has it.  When an expiry opcode (253 with its four bytes, or 252
  with its eight bytes) is followed by the opcode SELECTDB (254), the loop goes on
  exactly as it does on the SELECTDB opcode alone: the database is selected, nothing
  fails, and the expiry that was read is dropped.
\<close>

theorem expiry_before_selectdb_ignored:
  "parse_loop B flt is_first db (0xFD # t0 # t1 # t2 # t3 # 0xFE # rest)
     = parse_loop B flt is_first db (0xFE # rest) \<and>
   parse_loop B flt is_first db (0xFC # t0 # t1 # t2 # t3 # t4 # t5 # t6 # t7 # 0xFE # rest)
     = parse_loop B flt is_first db (0xFE # rest)"
  by (simp only: parse_loop_selectdb parse_loop_expiry_selectdb parse_loop_expiry_ms_selectdb)

theorem expiry_before_selectdb_ignored_witness:
  "parse_loop example_builtins no_filter True 0
       [0xFD, 0x01, 0x02, 0x03, 0x04, 0xFE, 0x00, 0x00, 0x01, 0x6B, 0x01, 0x76, 0xFF]
     = ([Start_database 0, Set_key (VStr [0x6B]) (VStr [0x76]) None (Info ''string'' None),
         End_database 0, End_rdb], Inr [])"
proof -
  have "parse_loop example_builtins no_filter True 0
          [0xFE, 0x00, 0x00, 0x01, 0x6B, 0x01, 0x76, 0xFF]
     = ([Start_database 0, Set_key (VStr [0x6B]) (VStr [0x76]) None (Info ''string'' None),
         End_database 0, End_rdb], Inr [])"
    by code_simp
  then show ?thesis
    using expiry_before_selectdb_ignored [of example_builtins no_filter True 0
        "0x01" "0x02" "0x03" "0x04" "[0x00, 0x00, 0x01, 0x6B, 0x01, 0x76, 0xFF]"]
    by simp
qed

text \<open>
  The claim as the specification states it fails on the dump
  \<^verbatim>\<open>REDIS0006 FD 01 02 03 04 FE 00 00 01 6B 01 76 FF\<close>: the parse runs to the end, and the
  string that follows has no expiry.
\<close>

theorem parse_expiry_then_selectdb_succeeds:
  "parse example_builtins no_filter
     (REDIS0006 @ [0xFD, 0x01, 0x02, 0x03, 0x04, 0xFE, 0x00, 0x00, 0x01, 0x6B, 0x01, 0x76, 0xFF])
   = ([Start_rdb, Start_database 0,
       Set_key (VStr [0x6B]) (VStr [0x76]) None (Info ''string'' None),
       End_database 0, End_rdb], Inr [])"
  by code_simp

end
